theory Spec2Isabelle
  imports Complex_Main "HOL-Library.Word"
begin

section \<open>The RPROP optimizer of Wapiti (src/rprop.c)\<close>

text \<open>
  The theory embeds the two functions of \<^verbatim>\<open>rprop.c\<close>: the partial weight update
  \<^verbatim>\<open>trn_rpropsub\<close> and the training loop \<^verbatim>\<open>trn_rprop\<close>.

  Conventions of the embedding.
  \<^item> A C \<^verbatim>\<open>double\<close> is a real number: the arithmetic is exact, and non-finite values
    do not exist. Every statement below is a statement about this idealisation.
  \<^item> \<^verbatim>\<open>size_t\<close> is a 64-bit word; multiplication wraps and division is unsigned.
  \<^item> A C \<^verbatim>\<open>int\<close> that the code never lets overflow is modelled by its value, an
    \<^typ>\<open>int\<close>; its conversion to \<^verbatim>\<open>size_t\<close> is \<^term>\<open>word_of_int\<close>.
  \<^item> A C array is a list. An access outside the list is undefined behaviour in C; the
    model returns \<^term>\<open>None\<close> there, as it does for a division by zero.
\<close>

subsection \<open>Options, model and optimizer state\<close>

text \<open>
  The fields of \<^verbatim>\<open>opt_t\<close> and \<^verbatim>\<open>mdl_t\<close> that \<^verbatim>\<open>rprop.c\<close> reads. Their
  declarations (options.h, model.h) are not part of the sources at hand, so each field
  has the type of the local variable that \<^verbatim>\<open>rprop.c\<close> initialises from it.
\<close>

record rprop_opt_t =
  stpmin :: real
  stpmax :: real
  stpinc :: real
  stpdec :: real

record opt_t =
  maxiter :: int
  nthread :: "64 word"
  rho1 :: real
  rprop :: rprop_opt_t

record mdl_t =
  opt :: opt_t
  nftr :: "64 word"
  theta :: "real list"

text \<open>\<^verbatim>\<open>struct rprop_s\<close>. The model is held by value: the weight vector \<^verbatim>\<open>mdl->theta\<close>
  that the update mutates in place travels with the state.\<close>

record rprop_t =
  mdl :: mdl_t
  g :: "real list"
  gp :: "real list"
  stp :: "real list"
  dlt :: "real list"

subsection \<open>The body of the loop of \<^verbatim>\<open>trn_rpropsub\<close>\<close>

text \<open>\<^verbatim>\<open>#define sign(v) ((v) < 0.0 ? -1.0 : ((v) > 0.0 ? 1.0 : 0.0))\<close>\<close>

definition sign :: "real \<Rightarrow> real" where
  "sign v = (if v < 0 then - 1 else (if v > 0 then 1 else 0))"

text \<open>
  The loop body reads and writes the five arrays at the single index \<^verbatim>\<open>f\<close>. The
  record \<open>feat_t\<close> holds these five array cells, \<^verbatim>\<open>x[f]\<close>, \<^verbatim>\<open>g[f]\<close>, \<^verbatim>\<open>gp[f]\<close>,
  \<^verbatim>\<open>stp[f]\<close> and \<^verbatim>\<open>dlt[f]\<close>; the body is a function on it.
\<close>

record feat_t =
  x_f :: real
  g_f :: real
  gp_f :: real
  stp_f :: real
  dlt_f :: real

text \<open>Lines 92 to 99: the local \<^verbatim>\<open>pg\<close> starts as \<^verbatim>\<open>g[f]\<close> and, when \<^verbatim>\<open>l1\<close> holds,
  is adjusted by the first branch that applies.\<close>

definition pseudo_gradient :: "real \<Rightarrow> real \<Rightarrow> real \<Rightarrow> real" where
  "pseudo_gradient rho xv gv =
     (let l1 = (rho \<noteq> 0);
          pg = gv
      in if l1 then
           (if xv < 0 then pg - rho
            else if xv > 0 then pg + rho
            else if gv < - rho then pg + rho
            else if gv > rho then pg - rho
            else 0)
         else pg)"

text \<open>The three branches of lines 104 to 119, named after the test that selects them.\<close>

datatype branch = Agree | Disagree | Neutral

definition branch_of :: "real \<Rightarrow> real \<Rightarrow> branch" where
  "branch_of gpv pg =
     (if gpv * pg > 0 then Agree
      else if gpv * pg < 0 then Disagree
      else Neutral)"

text \<open>The guard \<^verbatim>\<open>if (l1 && dlt[f] * pg >= 0.0) dlt[f] = 0.0;\<close> of lines 107 and 116.\<close>

definition l1_guard :: "bool \<Rightarrow> real \<Rightarrow> real \<Rightarrow> real" where
  "l1_guard l1 d pg = (if l1 \<and> d * pg \<ge> 0 then 0 else d)"

text \<open>
  Modelled from the spec: the macros \<^verbatim>\<open>min\<close> and \<^verbatim>\<open>max\<close> of tools.h, which is not
  part of the sources at hand. The specification uses them as the minimum and the
  maximum of two numbers; \<^term>\<open>min\<close> and \<^term>\<open>max\<close> on the reals stand for them.
\<close>

text \<open>Lines 92 to 120, one pass of the loop body.\<close>

definition rprop_feature :: "opt_t \<Rightarrow> feat_t \<Rightarrow> feat_t" where
  "rprop_feature opts c =
     (let l1 = (rho1 opts \<noteq> 0);
          pg = pseudo_gradient (rho1 opts) (x_f c) (g_f c);
          c' = (case branch_of (gp_f c) pg of
                  Agree \<Rightarrow>
                    (let s = min (stp_f c * stpinc (rprop opts)) (stpmax (rprop opts));
                         d = l1_guard l1 (s * - sign (g_f c)) pg
                     in c\<lparr>stp_f := s, dlt_f := d, x_f := x_f c + d\<rparr>)
                | Disagree \<Rightarrow>
                    c\<lparr>stp_f := max (stp_f c * stpdec (rprop opts)) (stpmin (rprop opts)),
                      x_f := x_f c - dlt_f c,
                      g_f := 0\<rparr>
                | Neutral \<Rightarrow>
                    (let d = l1_guard l1 (stp_f c * - sign pg) pg
                     in c\<lparr>dlt_f := d, x_f := x_f c + d\<rparr>))
      in c'\<lparr>gp_f := g_f c'\<rparr>)"

subsection \<open>\<^verbatim>\<open>trn_rpropsub\<close>\<close>

text \<open>Reading the five cells of feature \<open>f\<close> and writing them back.\<close>

definition get_feat :: "rprop_t \<Rightarrow> nat \<Rightarrow> feat_t" where
  "get_feat st f =
     \<lparr>x_f = theta (mdl st) ! f, g_f = g st ! f, gp_f = gp st ! f,
      stp_f = stp st ! f, dlt_f = dlt st ! f\<rparr>"

definition put_feat :: "rprop_t \<Rightarrow> nat \<Rightarrow> feat_t \<Rightarrow> rprop_t" where
  "put_feat st f c =
     st\<lparr>mdl := (mdl st)\<lparr>theta := (theta (mdl st))[f := x_f c]\<rparr>,
        g := (g st)[f := g_f c],
        gp := (gp st)[f := gp_f c],
        stp := (stp st)[f := stp_f c],
        dlt := (dlt st)[f := dlt_f c]\<rparr>"

definition in_bounds :: "rprop_t \<Rightarrow> nat \<Rightarrow> bool" where
  "in_bounds st f \<longleftrightarrow>
     f < length (theta (mdl st)) \<and> f < length (g st) \<and> f < length (gp st) \<and>
     f < length (stp st) \<and> f < length (dlt st)"

text \<open>One pass of the loop at index \<open>f\<close>; \<^term>\<open>None\<close> when \<open>f\<close> is outside an array.\<close>

definition rprop_step :: "nat \<Rightarrow> rprop_t \<Rightarrow> rprop_t option" where
  "rprop_step f st =
     (if in_bounds st f
      then Some (put_feat st f (rprop_feature (opt (mdl st)) (get_feat st f)))
      else None)"

text \<open>\<^verbatim>\<open>for (size_t f = from; f < to; f++)\<close>, from the current value of \<open>f\<close>.\<close>

function rprop_for :: "64 word \<Rightarrow> 64 word \<Rightarrow> rprop_t \<Rightarrow> rprop_t option" where
  "rprop_for f to st =
     (if f < to then
        (case rprop_step (unat f) st of
           None \<Rightarrow> None
         | Some st' \<Rightarrow> rprop_for (f + 1) to st')
      else Some st)"
  by pat_completeness auto
termination
proof (relation "measure (\<lambda>(f, to, st). unat to - unat f)")
  show "wf (measure (\<lambda>(f, to, st). unat to - unat f))" by simp
next
  fix f to :: "64 word" and st x2 :: rprop_t
  assume "f < to"
  then have lt: "unat f < unat to" by (simp add: word_less_nat_alt)
  have "unat to < 2 ^ 64" using unsigned_less [of to, where 'a = nat] by simp
  with lt have "unat f + 1 < 2 ^ 64" by linarith
  then have "unat (f + 1) = Suc (unat f)" by (simp add: unat_word_ariths)
  with lt show "((f + 1, to, x2), (f, to, st)) \<in> measure (\<lambda>(f, to, st). unat to - unat f)"
    by simp
qed

text \<open>The bounds \<^verbatim>\<open>F * id / cnt\<close> and \<^verbatim>\<open>F * (id + 1) / cnt\<close> of lines 86 and 87: the
  \<^verbatim>\<open>int\<close> operands are converted to \<^verbatim>\<open>size_t\<close>, the product wraps modulo \<open>2 ^ 64\<close>.\<close>

definition rprop_from :: "64 word \<Rightarrow> int \<Rightarrow> int \<Rightarrow> 64 word" where
  "rprop_from F wid cnt = F * word_of_int wid div word_of_int cnt"

definition rprop_to :: "64 word \<Rightarrow> int \<Rightarrow> int \<Rightarrow> 64 word" where
  "rprop_to F wid cnt = F * word_of_int (wid + 1) div word_of_int cnt"

text \<open>\<^verbatim>\<open>trn_rpropsub(job, id, cnt, st)\<close>; the unused \<^verbatim>\<open>job\<close> is left out.\<close>

definition trn_rpropsub :: "int \<Rightarrow> int \<Rightarrow> rprop_t \<Rightarrow> rprop_t option" where
  "trn_rpropsub wid cnt st =
     (let F = nftr (mdl st) in
      if (word_of_int cnt :: 64 word) = 0 then None
      else rprop_for (rprop_from F wid cnt) (rprop_to F wid cnt) st)"

subsection \<open>\<^verbatim>\<open>trn_rprop\<close>\<close>

text \<open>
  Modelled from the spec: the dispatch primitive \<^verbatim>\<open>mth_spawn\<close> (thread.c is not part
  of the sources at hand). The specification: given a function, a worker count \<open>W\<close> and
  per-worker arguments, it invokes the function once per worker id in \<open>[0, W)\<close>, each
  receiving \<open>(id, W, argument)\<close>, and returns when all invocations are complete.
  \<^verbatim>\<open>trn_rprop\<close> gives every worker the same argument \<^verbatim>\<open>st\<close>. The workers are run
  one after the other, in the order of their ids.
\<close>

definition mth_spawn :: "(int \<Rightarrow> int \<Rightarrow> 's \<Rightarrow> 's option) \<Rightarrow> int \<Rightarrow> 's \<Rightarrow> 's option" where
  "mth_spawn f W ud = fold (\<lambda>wid r. Option.bind r (f wid W)) (map int [0 ..< nat W]) (Some ud)"

text \<open>
  Modelled from the spec: \<^verbatim>\<open>xvm_new\<close> (vmath.c is not part of the sources at hand)
  allocates a vector of \<open>F\<close> numbers and does not initialise it. The contents of the
  fresh memory are a parameter.
\<close>

definition xvm_new :: "(nat \<Rightarrow> real) \<Rightarrow> 64 word \<Rightarrow> real list" where
  "xvm_new junk F = map junk [0 ..< unat F]"

record mem_t =
  new_g :: "nat \<Rightarrow> real"
  new_gp :: "nat \<Rightarrow> real"
  new_stp :: "nat \<Rightarrow> real"
  new_dlt :: "nat \<Rightarrow> real"

text \<open>
  Lines 131 to 134: \<^verbatim>\<open>for (unsigned f = 0; f < F; f++) { gp[f] = 0.0; stp[f] = 0.1; }\<close>.
  The counter is a 32-bit word that is compared with the 64-bit \<open>F\<close>, so the loop need
  not end; \<^term>\<open>None\<close> is a run that does not return, or that leaves an array.
\<close>

partial_function (option) rprop_init ::
  "32 word \<Rightarrow> 64 word \<Rightarrow> real list \<Rightarrow> real list \<Rightarrow> (real list \<times> real list) option" where
  "rprop_init f F gpv stpv =
     (if ucast f < F then
        (if unat f < length gpv \<and> unat f < length stpv
         then rprop_init (f + 1) F (gpv[unat f := 0]) (stpv[unat f := 0.1])
         else None)
      else Some (gpv, stpv))"

text \<open>
  Modelled from the spec: the collaborators of the training loop, \<^verbatim>\<open>grd_gradient\<close>
  (gradient.c), \<^verbatim>\<open>uit_stop\<close> and \<^verbatim>\<open>uit_progress\<close> (progress.c), none of which is part
  of the sources at hand. The gradient provider returns the gradient vector and the
  objective value; the stop flag is a boolean that may be set at any time and is polled
  before each iteration and after the gradient computation; the progress callback
  \<^verbatim>\<open>uit_progress(mdl, it, obj)\<close> returns whether to continue. Each is a function of
  the iteration it is consulted in.
\<close>

record env_t =
  uit_stop_loop :: "int \<Rightarrow> bool"
  grd_gradient :: "int \<Rightarrow> mdl_t \<Rightarrow> (nat \<Rightarrow> real) \<times> real"
  uit_stop_grad :: "int \<Rightarrow> bool"
  uit_progress :: "mdl_t \<Rightarrow> int \<Rightarrow> real \<Rightarrow> bool"

text \<open>\<^verbatim>\<open>grd_gradient(mdl, g, grds)\<close> refills the buffer \<^verbatim>\<open>g\<close>.\<close>

definition fill_gradient :: "(nat \<Rightarrow> real) \<Rightarrow> rprop_t \<Rightarrow> rprop_t" where
  "fill_gradient gv st = st\<lparr>g := map gv [0 ..< length (g st)]\<rparr>"

text \<open>The worker count \<^verbatim>\<open>W\<close>, a \<^verbatim>\<open>size_t\<close>, as the \<^verbatim>\<open>int\<close> that the workers receive.\<close>

definition int_of_size :: "64 word \<Rightarrow> int" where
  "int_of_size w = sint (ucast w :: 32 word)"

text \<open>
  Lines 151 to 158, from the current value of \<open>k\<close>, with the locals \<open>K\<close> and \<open>W\<close>. The
  counter \<open>k\<close> stays below \<open>K\<close>, so \<^verbatim>\<open>k + 1\<close> does not overflow. The second component
  of the result counts the calls of \<^verbatim>\<open>mth_spawn\<close> that the loop has made.
\<close>

function trn_rprop_loop ::
  "env_t \<Rightarrow> int \<Rightarrow> 64 word \<Rightarrow> int \<Rightarrow> rprop_t \<times> nat \<Rightarrow> (rprop_t \<times> nat) option" where
  "trn_rprop_loop env K W k (st, n) =
     (if \<not> uit_stop_loop env k \<and> k < K then
        (let (gv, fx) = grd_gradient env k (mdl st);
             st1 = fill_gradient gv st
         in if uit_stop_grad env k then Some (st1, n)
            else
              (case mth_spawn trn_rpropsub (int_of_size W) st1 of
                 None \<Rightarrow> None
               | Some st2 \<Rightarrow>
                   if uit_progress env (mdl st2) (k + 1) fx = False then Some (st2, Suc n)
                   else trn_rprop_loop env K W (k + 1) (st2, Suc n)))
      else Some (st, n))"
  by pat_completeness auto
termination
  by (relation "measure (\<lambda>(env, K, W, k, s). nat (K - k))") auto

text \<open>
  Lines 128 to 140: the allocation and initialisation of the optimizer state, giving the
  state that the first iteration starts from.
\<close>

definition rprop_start :: "mem_t \<Rightarrow> mdl_t \<Rightarrow> rprop_t option" where
  "rprop_start mem m =
     (let F = nftr m
      in case rprop_init 0 F (xvm_new (new_gp mem) F) (xvm_new (new_stp mem) F) of
           None \<Rightarrow> None
         | Some (gp0, stp0) \<Rightarrow>
             Some \<lparr>mdl = m, g = xvm_new (new_g mem) F, gp = gp0, stp = stp0,
                   dlt = xvm_new (new_dlt mem) F\<rparr>)"

text \<open>
  \<^verbatim>\<open>trn_rprop(mdl)\<close>, up to the point where the buffers are freed. The arrays
  \<^verbatim>\<open>rprop[W]\<close> and \<^verbatim>\<open>grds[W]\<close> of lines 141 and 145 have no cell when \<open>W = 0\<close>, and
  line 146 writes \<^verbatim>\<open>grds[0]\<close>: with no worker the behaviour is undefined.
\<close>

definition trn_rprop :: "env_t \<Rightarrow> mem_t \<Rightarrow> mdl_t \<Rightarrow> (rprop_t \<times> nat) option" where
  "trn_rprop env mem m =
     (let K = maxiter (opt m);
          W = nthread (opt m)
      in case rprop_start mem m of
           None \<Rightarrow> None
         | Some st \<Rightarrow> if W = 0 then None else trn_rprop_loop env K W 0 (st, 0))"

section \<open>Notions used to state the properties\<close>

text \<open>The pseudo-gradient in the words of the specification, case by case in its order.\<close>

definition spec_pseudo_gradient :: "real \<Rightarrow> real \<Rightarrow> real \<Rightarrow> real" where
  "spec_pseudo_gradient rho xv gv =
     (if rho = 0 then gv
      else if xv < 0 then gv - rho
      else if xv > 0 then gv + rho
      else if xv = 0 \<and> gv < - rho then gv + rho
      else if xv = 0 \<and> gv > rho then gv - rho
      else 0)"

text \<open>
  The classical RPROP rule, in the words of the specification for the three cases of
  the sign test, with the raw gradient in the place of the pseudo-gradient and no L1 step.
\<close>

definition classical_rprop :: "rprop_opt_t \<Rightarrow> feat_t \<Rightarrow> feat_t" where
  "classical_rprop p c =
     (if gp_f c * g_f c > 0 then
        (let s = min (stp_f c * stpinc p) (stpmax p);
             d = - sign (g_f c) * s
         in c\<lparr>x_f := x_f c + d, gp_f := g_f c, stp_f := s, dlt_f := d\<rparr>)
      else if gp_f c * g_f c < 0 then
        c\<lparr>x_f := x_f c - dlt_f c, g_f := 0, gp_f := 0,
          stp_f := max (stp_f c * stpdec p) (stpmin p)\<rparr>
      else
        (let d = - sign (g_f c) * stp_f c
         in c\<lparr>x_f := x_f c + d, gp_f := g_f c, dlt_f := d\<rparr>))"

text \<open>The branch that the loop body takes on a cell, and the delta it computes before
  the guard of lines 107 and 116.\<close>

definition feature_pg :: "opt_t \<Rightarrow> feat_t \<Rightarrow> real" where
  "feature_pg opts c = pseudo_gradient (rho1 opts) (x_f c) (g_f c)"

definition feature_branch :: "opt_t \<Rightarrow> feat_t \<Rightarrow> branch" where
  "feature_branch opts c = branch_of (gp_f c) (feature_pg opts c)"

definition tentative_delta :: "opt_t \<Rightarrow> feat_t \<Rightarrow> real" where
  "tentative_delta opts c =
     (case feature_branch opts c of
        Agree \<Rightarrow> min (stp_f c * stpinc (rprop opts)) (stpmax (rprop opts)) * - sign (g_f c)
      | Disagree \<Rightarrow> dlt_f c
      | Neutral \<Rightarrow> stp_f c * - sign (feature_pg opts c))"

text \<open>
  The successive updates of one feature: before each update the gradient provider
  stores a fresh value in \<^verbatim>\<open>g[f]\<close>. The trace lists, for every update, the cell the
  update starts from and the cell it leaves.
\<close>

fun feature_trace :: "opt_t \<Rightarrow> feat_t \<Rightarrow> real list \<Rightarrow> (feat_t \<times> feat_t) list" where
  "feature_trace opts c [] = []"
| "feature_trace opts c (gv # gs) =
     (let c1 = c\<lparr>g_f := gv\<rparr>;
          c2 = rprop_feature opts c1
      in (c1, c2) # feature_trace opts c2 gs)"


text \<open>Two states with the same options, feature count and array lengths.\<close>

definition same_shape :: "rprop_t \<Rightarrow> rprop_t \<Rightarrow> bool" where
  "same_shape st st' \<longleftrightarrow>
     opt (mdl st') = opt (mdl st) \<and> nftr (mdl st') = nftr (mdl st) \<and>
     length (theta (mdl st')) = length (theta (mdl st)) \<and>
     length (g st') = length (g st) \<and> length (gp st') = length (gp st) \<and>
     length (stp st') = length (stp st) \<and> length (dlt st') = length (dlt st)"

text \<open>
  A sequence of operations on the optimizer state: the gradient provider refills
  \<^verbatim>\<open>g\<close>, or a worker runs \<^verbatim>\<open>trn_rpropsub\<close> with some \<^verbatim>\<open>id\<close> and \<^verbatim>\<open>cnt\<close>.
\<close>

datatype event = Gradient "nat \<Rightarrow> real" | Update int int

fun rprop_run :: "rprop_t \<Rightarrow> event list \<Rightarrow> rprop_t option" where
  "rprop_run st [] = Some st"
| "rprop_run st (Gradient gv # es) = rprop_run (fill_gradient gv st) es"
| "rprop_run st (Update wid cnt # es) =
     (case trn_rpropsub wid cnt st of
        None \<Rightarrow> None
      | Some st' \<Rightarrow> rprop_run st' es)"

definition step_bounded :: "rprop_t \<Rightarrow> bool" where
  "step_bounded st \<longleftrightarrow>
     list_all (\<lambda>s. stpmin (rprop (opt (mdl st))) \<le> s \<and> s \<le> stpmax (rprop (opt (mdl st))))
       (stp st)"

text \<open>What the initialisation loop has done when it returns \<open>y\<close>: every cell below \<open>F\<close>
  holds its initial value, or lies below the counter and is as it was.\<close>

definition init_done ::
  "32 word \<Rightarrow> 64 word \<Rightarrow> real list \<Rightarrow> real list \<Rightarrow> real list \<times> real list \<Rightarrow> bool" where
  "init_done f F gpv stpv y \<longleftrightarrow>
     length (fst y) = length gpv \<and> length (snd y) = length stpv \<and>
     (\<forall>i < unat F. (fst y ! i = 0 \<and> snd y ! i = 1 / 10) \<or>
                   (i < unat f \<and> fst y ! i = gpv ! i \<and> snd y ! i = stpv ! i))"

text \<open>State \<open>st'\<close> is \<open>st\<close> with the features below \<open>a\<close> updated once.\<close>

definition updated_upto :: "rprop_t \<Rightarrow> nat \<Rightarrow> rprop_t \<Rightarrow> bool" where
  "updated_upto st a st' \<longleftrightarrow>
     same_shape st st' \<and>
     (\<forall>i < a. get_feat st' i = rprop_feature (opt (mdl st)) (get_feat st i)) \<and>
     (\<forall>i \<ge> a. get_feat st' i = get_feat st i)"

text \<open>
  A state as \<^verbatim>\<open>trn_rprop\<close> builds it, with the worker count \<open>W\<close>: every array has
  \<open>F\<close> cells, there is at least one worker, and the products of lines 86 and 87 do not
  wrap.
\<close>

definition well_formed :: "64 word \<Rightarrow> rprop_t \<Rightarrow> bool" where
  "well_formed W st \<longleftrightarrow>
     length (theta (mdl st)) = unat (nftr (mdl st)) \<and> length (g st) = unat (nftr (mdl st)) \<and>
     length (gp st) = unat (nftr (mdl st)) \<and> length (stp st) = unat (nftr (mdl st)) \<and>
     length (dlt st) = unat (nftr (mdl st)) \<and>
     1 \<le> int_of_size W \<and> unat (nftr (mdl st)) * nat (int_of_size W) < 2 ^ 64"

text \<open>The rounds of the training loop, a gradient and a dispatch each, without the stops.\<close>

fun rprop_iterations :: "64 word \<Rightarrow> rprop_t \<Rightarrow> (nat \<Rightarrow> real) list \<Rightarrow> rprop_t option" where
  "rprop_iterations W st [] = Some st"
| "rprop_iterations W st (gv # gvs) =
     (case mth_spawn trn_rpropsub (int_of_size W) (fill_gradient gv st) of
        None \<Rightarrow> None
      | Some st' \<Rightarrow> rprop_iterations W st' gvs)"

text \<open>The cell that the successive updates of one feature end in.\<close>

definition feature_final :: "opt_t \<Rightarrow> feat_t \<Rightarrow> real list \<Rightarrow> feat_t" where
  "feature_final opts c gs = fold (\<lambda>gv c. rprop_feature opts (c\<lparr>g_f := gv\<rparr>)) gs c"

text \<open>Concrete options, models and states with a single feature and a single worker.\<close>

definition ex_opt :: "real \<Rightarrow> real \<Rightarrow> opt_t" where
  "ex_opt rho smin =
     \<lparr>maxiter = 3, nthread = 1, rho1 = rho,
      rprop = \<lparr>stpmin = smin, stpmax = 50, stpinc = 12 / 10, stpdec = 5 / 10\<rparr>\<rparr>"

definition ex_state :: "opt_t \<Rightarrow> real \<Rightarrow> real \<Rightarrow> real \<Rightarrow> real \<Rightarrow> real \<Rightarrow> rprop_t" where
  "ex_state opts xv gv gpv stpv dltv =
     \<lparr>mdl = \<lparr>opt = opts, nftr = 1, theta = [xv]\<rparr>,
      g = [gv], gp = [gpv], stp = [stpv], dlt = [dltv]\<rparr>"

definition ex_mem :: mem_t where
  "ex_mem = \<lparr>new_g = (\<lambda>f. 0), new_gp = (\<lambda>f. 0), new_stp = (\<lambda>f. 0), new_dlt = (\<lambda>f. 0)\<rparr>"

definition ex_env :: "bool \<Rightarrow> env_t" where
  "ex_env stop =
     \<lparr>uit_stop_loop = (\<lambda>k. False), grd_gradient = (\<lambda>k m. ((\<lambda>f. 1), 0)),
      uit_stop_grad = (\<lambda>k. stop), uit_progress = (\<lambda>m it obj. True)\<rparr>"

text \<open>The collaborators of the concrete trace: no stop, the gradients \<open>1\<close>, \<open>1\<close>, \<open>- 1\<close>.\<close>

definition trace_env :: env_t where
  "trace_env =
     \<lparr>uit_stop_loop = (\<lambda>k. False),
      grd_gradient = (\<lambda>k m. ((\<lambda>f. if k = 2 then - 1 else 1), 0)),
      uit_stop_grad = (\<lambda>k. False), uit_progress = (\<lambda>m it obj. True)\<rparr>"

text \<open>The updates of one feature under the gradients \<open>1\<close>, \<open>1\<close>, \<open>- 1\<close>, \<open>- 1\<close>.\<close>

definition ex_trace :: "(feat_t \<times> feat_t) list" where
  "ex_trace =
     feature_trace (ex_opt 0 (1 / 1000000))
       \<lparr>x_f = 0, g_f = 0, gp_f = 0, stp_f = 1 / 10, dlt_f = 0\<rparr> [1, 1, - 1, - 1]"

section \<open>Properties\<close>

subsection \<open>Auxiliary facts\<close>

lemmas rprop_eval =
  trn_rpropsub_def rprop_from_def rprop_to_def rprop_step_def in_bounds_def
  get_feat_def put_feat_def rprop_feature_def pseudo_gradient_def branch_of_def l1_guard_def
  sign_def fill_gradient_def ex_state_def ex_opt_def Let_def

lemma unat_inc_lt: "(f::64 word) < to \<Longrightarrow> unat (f + 1) = Suc (unat f)"
proof -
  assume "f < to"
  then have "unat f < unat to" by (simp add: word_less_nat_alt)
  moreover have "unat to < 2 ^ 64" using unsigned_less [of to, where 'a = nat] by simp
  ultimately have "unat f + 1 < 2 ^ 64" by linarith
  then show ?thesis by (simp add: unat_word_ariths)
qed

lemma unat_word_of_int_nat:
  assumes "0 \<le> k" "nat k < 2 ^ 64"
  shows "unat (word_of_int k :: 64 word) = nat k"
proof -
  from assms(1) have "(word_of_int k :: 64 word) = of_nat (nat k)" by simp
  then show ?thesis using assms(2) by (simp add: unat_of_nat)
qed

lemma unat_ucast_32_64: "unat (ucast (f :: 32 word) :: 64 word) = unat f"
proof -
  have "unat f < 2 ^ 32" using unsigned_less [of f, where 'a = nat] by simp
  then have "unat f < 2 ^ 64" by simp
  then have "take_bit 64 (unat f) = unat f" by (simp add: take_bit_nat_eq_self)
  then show ?thesis by (simp add: unsigned_ucast_eq)
qed

lemma unat_inc_32: "unat (f :: 32 word) < n \<Longrightarrow> n < 2 ^ 32 \<Longrightarrow> unat (f + 1) = Suc (unat f)"
  by (simp add: unat_word_ariths)

lemma int_of_size_less: "nat (int_of_size w) < 2 ^ 64"
proof -
  have "sint (ucast w :: 32 word) < 2 ^ 31" using sint_lt [of "ucast w :: 32 word"] by simp
  then have "nat (int_of_size w) < 2 ^ 31" by (simp add: int_of_size_def)
  then show ?thesis by simp
qed



text \<open>
  Without wrap-around the bounds are the quotients of the specification.
\<close>

lemma range_unat:
  assumes wid: "0 \<le> wid" "wid < W" and nov: "unat F * nat W < 2 ^ 64" and W: "nat W < 2 ^ 64"
  shows "unat (rprop_from F wid W) = unat F * nat wid div nat W"
    and "unat (rprop_to F wid W) = unat F * (nat wid + 1) div nat W"
proof -
  from wid have le: "nat wid + 1 \<le> nat W" by linarith
  have uW: "unat (word_of_int W :: 64 word) = nat W"
    using wid W by (intro unat_word_of_int_nat) auto
  have uw: "unat (word_of_int wid :: 64 word) = nat wid"
    using wid le W by (intro unat_word_of_int_nat) auto
  have uw1: "unat (word_of_int (wid + 1) :: 64 word) = nat wid + 1"
    using wid le W unat_word_of_int_nat [of "wid + 1"] by (simp add: nat_add_distrib)
  have "nat wid \<le> nat W" using le by simp
  then have "unat F * nat wid \<le> unat F * nat W" by (rule mult_le_mono2)
  from this nov have "unat F * nat wid < 2 ^ 64" by (rule le_less_trans)
  then have "unat F * unat (word_of_int wid :: 64 word) < 2 ^ LENGTH(64)"
    using uw by simp
  then have m: "unat (F * word_of_int wid) = unat F * nat wid"
    using uw unat_mult_lem [of F "word_of_int wid"] by simp
  have "unat F * (nat wid + 1) \<le> unat F * nat W" using le by (rule mult_le_mono2)
  from this nov have "unat F * (nat wid + 1) < 2 ^ 64" by (rule le_less_trans)
  then have "unat F * unat (word_of_int (wid + 1) :: 64 word) < 2 ^ LENGTH(64)"
    using uw1 by simp
  then have m1: "unat (F * word_of_int (wid + 1)) = unat F * (nat wid + 1)"
    using uw1 unat_mult_lem [of F "word_of_int (wid + 1)"] by simp
  show "unat (rprop_from F wid W) = unat F * nat wid div nat W"
    by (simp only: rprop_from_def unat_div m uW)
  show "unat (rprop_to F wid W) = unat F * (nat wid + 1) div nat W"
    by (simp only: rprop_to_def unat_div m1 uW)
qed

subsection \<open>The loop body, branch by branch\<close>

lemma rprop_feature_Agree:
  assumes "feature_branch opts c = Agree"
  shows "rprop_feature opts c =
           c\<lparr>stp_f := min (stp_f c * stpinc (rprop opts)) (stpmax (rprop opts)),
             dlt_f := l1_guard (rho1 opts \<noteq> 0) (tentative_delta opts c) (feature_pg opts c),
             x_f := x_f c + l1_guard (rho1 opts \<noteq> 0) (tentative_delta opts c) (feature_pg opts c),
             gp_f := g_f c\<rparr>"
  using assms
  by (simp add: rprop_feature_def feature_branch_def feature_pg_def tentative_delta_def Let_def)

lemma rprop_feature_Disagree:
  assumes "feature_branch opts c = Disagree"
  shows "rprop_feature opts c =
           c\<lparr>stp_f := max (stp_f c * stpdec (rprop opts)) (stpmin (rprop opts)),
             x_f := x_f c - dlt_f c, g_f := 0, gp_f := 0\<rparr>"
  using assms
  by (simp add: rprop_feature_def feature_branch_def feature_pg_def Let_def)

lemma rprop_feature_Neutral:
  assumes "feature_branch opts c = Neutral"
  shows "rprop_feature opts c =
           c\<lparr>dlt_f := l1_guard (rho1 opts \<noteq> 0) (tentative_delta opts c) (feature_pg opts c),
             x_f := x_f c + l1_guard (rho1 opts \<noteq> 0) (tentative_delta opts c) (feature_pg opts c),
             gp_f := g_f c\<rparr>"
  using assms
  by (simp add: rprop_feature_def feature_branch_def feature_pg_def tentative_delta_def Let_def)

lemma gp_zero_Neutral: "gp_f c = 0 \<Longrightarrow> feature_branch opts c = Neutral"
  by (simp add: feature_branch_def branch_of_def)

lemma Disagree_gp_nonzero: "feature_branch opts c = Disagree \<Longrightarrow> gp_f c \<noteq> 0"
  by (auto simp: feature_branch_def branch_of_def split: if_splits)

lemma after_Disagree_gp: "feature_branch opts c = Disagree \<Longrightarrow> gp_f (rprop_feature opts c) = 0"
  by (simp add: rprop_feature_Disagree)

lemma applied_delta:
  "feature_branch opts c \<noteq> Disagree \<Longrightarrow>
     x_f (rprop_feature opts c) = x_f c + dlt_f (rprop_feature opts c)"
  by (cases "feature_branch opts c") (simp_all add: rprop_feature_Agree rprop_feature_Neutral)

lemma feature_gp:
  "gp_f (rprop_feature opts c) = g_f (rprop_feature opts c)"
  "g_f (rprop_feature opts c) = (if feature_branch opts c = Disagree then 0 else g_f c)"
  by (cases "feature_branch opts c";
      simp add: rprop_feature_Agree rprop_feature_Disagree rprop_feature_Neutral)+

lemma feature_step_bound:
  assumes cfg: "0 \<le> stpmin (rprop opts)" "1 \<le> stpinc (rprop opts)" "stpdec (rprop opts) \<le> 1"
    and b: "stpmin (rprop opts) \<le> stp_f c" "stp_f c \<le> stpmax (rprop opts)"
  shows "stpmin (rprop opts) \<le> stp_f (rprop_feature opts c) \<and>
         stp_f (rprop_feature opts c) \<le> stpmax (rprop opts)"
proof (cases "feature_branch opts c")
  case Agree
  from cfg b have "0 \<le> stp_f c" by linarith
  then have "stp_f c * 1 \<le> stp_f c * stpinc (rprop opts)"
    using cfg(2) by (intro mult_left_mono) auto
  with b show ?thesis by (simp add: rprop_feature_Agree [OF Agree])
next
  case Disagree
  from cfg b have "0 \<le> stp_f c" by linarith
  then have "stp_f c * stpdec (rprop opts) \<le> stp_f c * 1"
    using cfg(3) by (intro mult_left_mono) auto
  with b show ?thesis by (simp add: rprop_feature_Disagree [OF Disagree])
next
  case Neutral
  with b show ?thesis by (simp add: rprop_feature_Neutral [OF Neutral])
qed

subsection \<open>The loop over a range of features\<close>

lemma get_put_same: "in_bounds st f \<Longrightarrow> get_feat (put_feat st f c) f = c"
  by (simp add: get_feat_def put_feat_def in_bounds_def)

lemma get_put_other: "i \<noteq> f \<Longrightarrow> get_feat (put_feat st f c) i = get_feat st i"
  by (simp add: get_feat_def put_feat_def)

lemma same_shape_refl: "same_shape st st"
  by (simp add: same_shape_def)

lemma same_shape_trans: "same_shape a b \<Longrightarrow> same_shape b c \<Longrightarrow> same_shape a c"
  by (simp add: same_shape_def)

lemma same_shape_put: "same_shape st (put_feat st f c)"
  by (simp add: same_shape_def put_feat_def)

lemma same_shape_in_bounds: "same_shape st st' \<Longrightarrow> in_bounds st' i = in_bounds st i"
  by (simp add: same_shape_def in_bounds_def)

lemma same_shape_fill: "same_shape st (fill_gradient gv st)"
  by (simp add: same_shape_def fill_gradient_def)

lemma well_formed_same_shape: "same_shape st st' \<Longrightarrow> well_formed W st \<Longrightarrow> well_formed W st'"
  by (simp add: same_shape_def well_formed_def)

lemma get_feat_fill:
  "i < length (g st) \<Longrightarrow> get_feat (fill_gradient gv st) i = (get_feat st i)\<lparr>g_f := gv i\<rparr>"
  by (simp add: get_feat_def fill_gradient_def)

lemma rprop_step_Some:
  assumes "rprop_step f st = Some st'"
  shows "in_bounds st f" and "same_shape st st'"
    and "get_feat st' f = rprop_feature (opt (mdl st)) (get_feat st f)"
    and "i \<noteq> f \<Longrightarrow> get_feat st' i = get_feat st i"
  using assms
  by (auto simp: rprop_step_def get_put_same get_put_other same_shape_put split: if_splits)

lemma rprop_for_Some:
  "rprop_for f to st = Some st' \<Longrightarrow>
     same_shape st st' \<and>
     (\<forall>i. unat f \<le> i \<and> i < unat to \<longrightarrow>
        in_bounds st i \<and> get_feat st' i = rprop_feature (opt (mdl st)) (get_feat st i)) \<and>
     (\<forall>i. \<not> (unat f \<le> i \<and> i < unat to) \<longrightarrow> get_feat st' i = get_feat st i)"
proof (induction f to st rule: rprop_for.induct)
  case (1 f to st)
  show ?case
  proof (cases "f < to")
    case False
    then have "\<not> unat f < unat to" by (simp add: word_less_nat_alt)
    moreover from False "1.prems" have "st' = st" by simp
    ultimately show ?thesis by (auto simp: same_shape_refl)
  next
    case True
    then have lt: "unat f < unat to" by (simp add: word_less_nat_alt)
    from True have suc: "unat (f + 1) = Suc (unat f)" by (rule unat_inc_lt)
    from True "1.prems" obtain st1 where
      s1: "rprop_step (unat f) st = Some st1" and r: "rprop_for (f + 1) to st1 = Some st'"
      by (auto split: option.splits)
    note IH = "1.IH" [OF True s1 r]
    note S = rprop_step_Some [OF s1]
    have shape: "same_shape st st'" using S(2) IH same_shape_trans by blast
    have opt1: "opt (mdl st1) = opt (mdl st)" using S(2) by (simp add: same_shape_def)
    have a: "in_bounds st i \<and> get_feat st' i = rprop_feature (opt (mdl st)) (get_feat st i)"
      if "unat f \<le> i" "i < unat to" for i
    proof (cases "i = unat f")
      case True
      then have "get_feat st' i = get_feat st1 i" using IH suc by simp
      with True S(1,3) show ?thesis by simp
    next
      case False
      with that suc have "unat (f + 1) \<le> i \<and> i < unat to" by simp
      with IH have "in_bounds st1 i" "get_feat st' i = rprop_feature (opt (mdl st1)) (get_feat st1 i)"
        by blast+
      with False S(2,4) opt1 show ?thesis by (simp add: same_shape_in_bounds)
    qed
    have b: "get_feat st' i = get_feat st i" if "\<not> (unat f \<le> i \<and> i < unat to)" for i
    proof -
      from that lt have "i \<noteq> unat f" by auto
      moreover from that suc have "\<not> (unat (f + 1) \<le> i \<and> i < unat to)" by auto
      ultimately show ?thesis using IH S(4) by simp
    qed
    from shape a b show ?thesis by blast
  qed
qed

text \<open>
  The loop returns when its range lies inside the arrays.
\<close>

lemma rprop_for_total:
  "(\<forall>i. unat f \<le> i \<and> i < unat to \<longrightarrow> in_bounds st i) \<Longrightarrow> \<exists>st'. rprop_for f to st = Some st'"
proof (induction f to st rule: rprop_for.induct)
  case (1 f to st)
  show ?case
  proof (cases "f < to")
    case False
    then show ?thesis by simp
  next
    case True
    then have lt: "unat f < unat to" by (simp add: word_less_nat_alt)
    from True have suc: "unat (f + 1) = Suc (unat f)" by (rule unat_inc_lt)
    from lt "1.prems" have "in_bounds st (unat f)" by simp
    then obtain st1 where s1: "rprop_step (unat f) st = Some st1"
      by (simp add: rprop_step_def)
    have "\<forall>i. unat (f + 1) \<le> i \<and> i < unat to \<longrightarrow> in_bounds st1 i"
      using "1.prems" suc rprop_step_Some(2) [OF s1] by (simp add: same_shape_in_bounds)
    from "1.IH" [OF True s1 this] obtain st' where "rprop_for (f + 1) to st1 = Some st'" ..
    with True s1 show ?thesis by simp
  qed
qed

text \<open>
  What a call of \<^verbatim>\<open>trn_rpropsub\<close> that returns has done: the features of its range are
  updated once, the others are as they were.
\<close>

lemma trn_rpropsub_Some:
  assumes "trn_rpropsub wid cnt st = Some st'"
  shows "same_shape st st'"
    and "\<And>i. unat (rprop_from (nftr (mdl st)) wid cnt) \<le> i \<Longrightarrow>
             i < unat (rprop_to (nftr (mdl st)) wid cnt) \<Longrightarrow>
             in_bounds st i \<and> get_feat st' i = rprop_feature (opt (mdl st)) (get_feat st i)"
    and "\<And>i. \<not> (unat (rprop_from (nftr (mdl st)) wid cnt) \<le> i \<and>
                i < unat (rprop_to (nftr (mdl st)) wid cnt)) \<Longrightarrow>
             get_feat st' i = get_feat st i"
proof -
  from assms have
    "rprop_for (rprop_from (nftr (mdl st)) wid cnt) (rprop_to (nftr (mdl st)) wid cnt) st = Some st'"
    by (simp add: trn_rpropsub_def Let_def split: if_splits)
  note R = rprop_for_Some [OF this]
  from R show "same_shape st st'" by blast
  from R show "\<And>i. unat (rprop_from (nftr (mdl st)) wid cnt) \<le> i \<Longrightarrow>
             i < unat (rprop_to (nftr (mdl st)) wid cnt) \<Longrightarrow>
             in_bounds st i \<and> get_feat st' i = rprop_feature (opt (mdl st)) (get_feat st i)"
    by blast
  from R show "\<And>i. \<not> (unat (rprop_from (nftr (mdl st)) wid cnt) \<le> i \<and>
                i < unat (rprop_to (nftr (mdl st)) wid cnt)) \<Longrightarrow>
             get_feat st' i = get_feat st i"
    by blast
qed

subsection \<open>The initialisation\<close>

text \<open>
  The initialisation loop returns when \<open>F\<close> fits the 32-bit counter, and then every
  feature has the step \<open>0.1\<close> and the previous gradient \<open>0\<close>.
\<close>

lemma rprop_init_Some:
  assumes "rprop_init f0 F0 gpv0 stpv0 = Some y0"
  shows "init_done f0 F0 gpv0 stpv0 y0"
proof (rule rprop_init.raw_induct [where P = init_done, OF _ assms])
  fix rec f F gpv stpv y
  assume IH: "\<And>f F gpv stpv y. rec f F gpv stpv = Some y \<Longrightarrow> init_done f F gpv stpv y"
    and hyp: "(if ucast f < F
               then if unat f < length gpv \<and> unat f < length stpv
                    then rec (f + 1) F (gpv[unat f := 0]) (stpv[unat f := 1 / 10])
                    else None
               else Some (gpv, stpv)) = Some y"
  show "init_done f F gpv stpv y"
  proof (cases "ucast f < F")
    case False
    then have "unat F \<le> unat f" by (simp add: word_less_nat_alt unat_ucast_32_64)
    moreover from False hyp have "y = (gpv, stpv)" by simp
    ultimately show ?thesis by (auto simp: init_done_def)
  next
    case True
    with hyp have b: "unat f < length gpv" "unat f < length stpv"
      and r: "rec (f + 1) F (gpv[unat f := 0]) (stpv[unat f := 1 / 10]) = Some y"
      by (auto split: if_splits)
    from IH [OF r] have I: "length (fst y) = length gpv" "length (snd y) = length stpv"
      "\<And>i. i < unat F \<Longrightarrow> (fst y ! i = 0 \<and> snd y ! i = 1 / 10) \<or>
         (i < unat (f + 1) \<and> fst y ! i = gpv[unat f := 0] ! i \<and>
          snd y ! i = stpv[unat f := 1 / 10] ! i)"
      by (simp_all add: init_done_def)
    have le: "unat (f + 1) \<le> Suc (unat f)" by (simp add: unat_word_ariths)
    have "(fst y ! i = 0 \<and> snd y ! i = 1 / 10) \<or>
          (i < unat f \<and> fst y ! i = gpv ! i \<and> snd y ! i = stpv ! i)" if "i < unat F" for i
    proof (cases "i = unat f")
      case True
      with I(3) [OF that] b show ?thesis by auto
    next
      case False
      with I(3) [OF that] le show ?thesis by (auto simp: less_Suc_eq)
    qed
    with I(1,2) show ?thesis by (simp add: init_done_def)
  qed
qed

lemma rprop_start_Some:
  assumes "rprop_start mem m = Some st"
  shows "mdl st = m" and "length (stp st) = unat (nftr m)" and "length (gp st) = unat (nftr m)"
    and "length (g st) = unat (nftr m)" and "length (dlt st) = unat (nftr m)"
    and "\<And>i. i < unat (nftr m) \<Longrightarrow> stp st ! i = 1 / 10 \<and> gp st ! i = 0"
proof -
  from assms obtain gp0 stp0 where
    i: "rprop_init 0 (nftr m) (xvm_new (new_gp mem) (nftr m)) (xvm_new (new_stp mem) (nftr m))
          = Some (gp0, stp0)"
    and st: "st = \<lparr>mdl = m, g = xvm_new (new_g mem) (nftr m), gp = gp0, stp = stp0,
                   dlt = xvm_new (new_dlt mem) (nftr m)\<rparr>"
    by (auto simp: rprop_start_def Let_def split: option.splits)
  note I = rprop_init_Some [OF i, unfolded init_done_def]
  from st show "mdl st = m" by simp
  from st I show "length (stp st) = unat (nftr m)" by (simp add: xvm_new_def)
  from st I show "length (gp st) = unat (nftr m)" by (simp add: xvm_new_def)
  from st show "length (g st) = unat (nftr m)" by (simp add: xvm_new_def)
  from st show "length (dlt st) = unat (nftr m)" by (simp add: xvm_new_def)
  from st I show "\<And>i. i < unat (nftr m) \<Longrightarrow> stp st ! i = 1 / 10 \<and> gp st ! i = 0" by auto
qed

lemma rprop_init_total:
  "unat F < 2 ^ 32 \<Longrightarrow> unat F \<le> length gpv \<Longrightarrow> unat F \<le> length stpv \<Longrightarrow>
     \<exists>y. rprop_init f F gpv stpv = Some y"
proof (induction "unat F - unat f" arbitrary: f gpv stpv)
  case 0
  then have "\<not> ucast f < F" by (simp add: word_less_nat_alt unat_ucast_32_64)
  then show ?case by (subst rprop_init.simps) simp
next
  case (Suc d)
  then have lt: "unat f < unat F" by simp
  then have c: "ucast f < F" by (simp add: word_less_nat_alt unat_ucast_32_64)
  from lt Suc.prems(1) have s: "unat (f + 1) = Suc (unat f)" by (rule unat_inc_32)
  with Suc.hyps(2) have "d = unat F - unat (f + 1)" by simp
  from Suc.hyps(1) [OF this Suc.prems(1), of "gpv[unat f := 0]" "stpv[unat f := 1 / 10]"] Suc.prems(2,3)
  obtain y where "rprop_init (f + 1) F (gpv[unat f := 0]) (stpv[unat f := 1 / 10]) = Some y"
    by auto
  with c lt Suc.prems(2,3) show ?case by (subst rprop_init.simps) simp
qed

lemma rprop_start_total: "unat (nftr m) < 2 ^ 32 \<Longrightarrow> \<exists>st. rprop_start mem m = Some st"
proof -
  assume "unat (nftr m) < 2 ^ 32"
  from rprop_init_total [OF this, of "xvm_new (new_gp mem) (nftr m)" "xvm_new (new_stp mem) (nftr m)" 0]
  obtain y where "rprop_init 0 (nftr m) (xvm_new (new_gp mem) (nftr m)) (xvm_new (new_stp mem) (nftr m)) = Some y"
    by (auto simp: xvm_new_def)
  then show ?thesis by (cases y) (simp add: rprop_start_def Let_def)
qed

text \<open>
  The initialisation loop returns only when \<open>F\<close> fits the 32-bit counter: for a
  larger \<open>F\<close> the counter wraps before it reaches \<open>F\<close>.
\<close>

lemma rprop_init_Some_small:
  assumes "rprop_init f0 F0 gpv0 stpv0 = Some y0"
  shows "unat F0 < 2 ^ 32"
proof (rule rprop_init.raw_induct [where P = "\<lambda>f F gpv stpv y. unat F < 2 ^ 32", OF _ assms])
  fix rec :: "32 word \<Rightarrow> 64 word \<Rightarrow> real list \<Rightarrow> real list \<Rightarrow> (real list \<times> real list) option"
    and f :: "32 word" and F :: "64 word" and gpv stpv :: "real list" and y :: "real list \<times> real list"
  assume IH: "\<And>f F gpv stpv y. rec f F gpv stpv = Some y \<Longrightarrow> unat F < 2 ^ 32"
    and hyp: "(if ucast f < F
               then if unat f < length gpv \<and> unat f < length stpv
                    then rec (f + 1) F (gpv[unat f := 0]) (stpv[unat f := 1 / 10])
                    else None
               else Some (gpv, stpv)) = Some y"
  show "unat F < 2 ^ 32"
  proof (cases "ucast f < F")
    case True
    with hyp have "rec (f + 1) F (gpv[unat f := 0]) (stpv[unat f := 1 / 10]) = Some y"
      by (auto split: if_splits)
    then show ?thesis by (rule IH)
  next
    case False
    then have "unat F \<le> unat f" by (simp add: word_less_nat_alt unat_ucast_32_64)
    moreover have "unat f < 2 ^ 32" using unsigned_less [of f, where 'a = nat] by simp
    ultimately show ?thesis by simp
  qed
qed

lemma rprop_start_None: "2 ^ 32 \<le> unat (nftr m) \<Longrightarrow> rprop_start mem m = None"
proof (rule ccontr)
  assume big: "2 ^ 32 \<le> unat (nftr m)" and "rprop_start mem m \<noteq> None"
  then obtain y where
    "rprop_init 0 (nftr m) (xvm_new (new_gp mem) (nftr m)) (xvm_new (new_stp mem) (nftr m)) = Some y"
    by (auto simp: rprop_start_def Let_def split: option.splits)
  from rprop_init_Some_small [OF this] big show False by simp
qed

text \<open>The state after the initialisation is well formed when the model is.\<close>

lemma rprop_start_well_formed:
  assumes "rprop_start mem m = Some st" and "length (theta m) = unat (nftr m)"
    and "1 \<le> int_of_size W"
    and "unat (nftr m) * nat (int_of_size W) < 2 ^ 64"
  shows "well_formed W st" and "\<And>i. i < unat (nftr m) \<Longrightarrow> gp_f (get_feat st i) = 0"
    and "\<And>i. i < unat (nftr m) \<Longrightarrow> stp_f (get_feat st i) = 1 / 10"
proof -
  note S = rprop_start_Some [OF assms(1)]
  from S(1-5) assms(2-4) show "well_formed W st" by (simp add: well_formed_def)
  show "\<And>i. i < unat (nftr m) \<Longrightarrow> gp_f (get_feat st i) = 0"
    using S(6) by (simp add: get_feat_def)
  show "\<And>i. i < unat (nftr m) \<Longrightarrow> stp_f (get_feat st i) = 1 / 10"
    using S(6) by (simp add: get_feat_def)
qed

subsection \<open>The step sizes along a sequence of operations\<close>

lemma step_bounded_iff:
  "step_bounded st \<longleftrightarrow>
     (\<forall>i < length (stp st).
        stpmin (rprop (opt (mdl st))) \<le> stp_f (get_feat st i) \<and>
        stp_f (get_feat st i) \<le> stpmax (rprop (opt (mdl st))))"
  by (simp add: step_bounded_def list_all_length get_feat_def)

lemma trn_rpropsub_step_bounded:
  assumes cfg: "0 \<le> stpmin (rprop (opt (mdl st)))" "1 \<le> stpinc (rprop (opt (mdl st)))"
      "stpdec (rprop (opt (mdl st))) \<le> 1"
    and b: "step_bounded st" and r: "trn_rpropsub wid cnt st = Some st'"
  shows "step_bounded st'"
proof -
  note S = trn_rpropsub_Some [OF r]
  from S(1) have o: "opt (mdl st') = opt (mdl st)" and l: "length (stp st') = length (stp st)"
    by (simp_all add: same_shape_def)
  have "stpmin (rprop (opt (mdl st))) \<le> stp_f (get_feat st' i) \<and>
        stp_f (get_feat st' i) \<le> stpmax (rprop (opt (mdl st)))" if i: "i < length (stp st)" for i
  proof -
    from b i have old: "stpmin (rprop (opt (mdl st))) \<le> stp_f (get_feat st i)"
      "stp_f (get_feat st i) \<le> stpmax (rprop (opt (mdl st)))"
      by (simp_all add: step_bounded_iff)
    show ?thesis
    proof (cases "unat (rprop_from (nftr (mdl st)) wid cnt) \<le> i \<and>
                  i < unat (rprop_to (nftr (mdl st)) wid cnt)")
      case True
      then have "get_feat st' i = rprop_feature (opt (mdl st)) (get_feat st i)"
        using S(2) by blast
      then show ?thesis using feature_step_bound [OF cfg old] by simp
    next
      case False
      then have "get_feat st' i = get_feat st i" using S(3) by blast
      with old show ?thesis by simp
    qed
  qed
  then show ?thesis by (simp add: step_bounded_iff o l)
qed

lemma fill_step_bounded: "step_bounded (fill_gradient gv st) = step_bounded st"
  by (simp add: step_bounded_def fill_gradient_def)

lemma rprop_run_step_bounded:
  "0 \<le> stpmin (rprop (opt (mdl st))) \<Longrightarrow> 1 \<le> stpinc (rprop (opt (mdl st))) \<Longrightarrow>
   stpdec (rprop (opt (mdl st))) \<le> 1 \<Longrightarrow> step_bounded st \<Longrightarrow>
   rprop_run st es = Some st' \<Longrightarrow> step_bounded st' \<and> same_shape st st'"
proof (induction st es rule: rprop_run.induct)
  case (1 st)
  then show ?case by (simp add: same_shape_refl)
next
  case (2 st gv es)
  have "opt (mdl (fill_gradient gv st)) = opt (mdl st)" by (simp add: fill_gradient_def)
  with 2 have "step_bounded st' \<and> same_shape (fill_gradient gv st) st'"
    by (simp add: fill_step_bounded)
  then show ?case using same_shape_fill same_shape_trans by blast
next
  case (3 st wid cnt es)
  from "3.prems"(5) obtain st1 where
    u: "trn_rpropsub wid cnt st = Some st1" and r: "rprop_run st1 es = Some st'"
    by (auto split: option.splits)
  have sh: "same_shape st st1" using trn_rpropsub_Some(1) [OF u] .
  then have o: "opt (mdl st1) = opt (mdl st)" by (simp add: same_shape_def)
  have b1: "step_bounded st1"
    using trn_rpropsub_step_bounded [OF "3.prems"(1-4) u] .
  from "3.IH" [OF u] "3.prems"(1-3) o b1 r
  have "step_bounded st' \<and> same_shape st1 st'" by simp
  with sh show ?case using same_shape_trans by blast
qed

subsection \<open>The successive updates of one feature\<close>

lemma feature_trace_length: "length (feature_trace opts c gs) = length gs"
  by (induction gs arbitrary: c) (simp_all add: Let_def)

lemma feature_trace_step:
  "i < length gs \<Longrightarrow>
     snd (feature_trace opts c gs ! i) = rprop_feature opts (fst (feature_trace opts c gs ! i))"
proof (induction gs arbitrary: c i)
  case Nil
  then show ?case by simp
next
  case (Cons gv gs)
  then show ?case by (cases i) (simp_all add: Let_def)
qed

lemma feature_trace_first:
  "gs \<noteq> [] \<Longrightarrow> fst (feature_trace opts c gs ! 0) = c\<lparr>g_f := gs ! 0\<rparr>"
  by (cases gs) (simp_all add: Let_def)

lemma feature_trace_next:
  "Suc i < length gs \<Longrightarrow>
     fst (feature_trace opts c gs ! Suc i) = (snd (feature_trace opts c gs ! i))\<lparr>g_f := gs ! Suc i\<rparr>"
proof (induction gs arbitrary: c i)
  case Nil
  then show ?case by simp
next
  case (Cons gv gs)
  show ?case
  proof (cases i)
    case 0
    with Cons.prems show ?thesis by (simp add: Let_def feature_trace_first)
  next
    case (Suc j)
    with Cons show ?thesis by (simp add: Let_def)
  qed
qed

lemma feature_trace_final:
  "gs \<noteq> [] \<Longrightarrow> snd (last (feature_trace opts c gs)) = feature_final opts c gs"
proof (induction gs arbitrary: c)
  case Nil
  then show ?case by simp
next
  case (Cons gv gs)
  show ?case
  proof (cases "gs = []")
    case True
    then show ?thesis by (simp add: feature_final_def Let_def)
  next
    case False
    then have "feature_trace opts (rprop_feature opts (c\<lparr>g_f := gv\<rparr>)) gs \<noteq> []"
      by (cases gs) (simp_all add: Let_def)
    with Cons.IH [OF False] show ?thesis by (simp add: feature_final_def Let_def)
  qed
qed

text \<open>
  A disagreeing update in a trace that starts with the previous gradient \<open>0\<close>: it is
  not the first update, the update before it did not disagree, and nothing but the
  gradient has changed in between.
\<close>

lemma Disagree_in_trace:
  assumes gp0: "gp_f c = 0" and i: "i < length gs"
    and d: "feature_branch opts (fst (feature_trace opts c gs ! i)) = Disagree"
  shows "0 < i"
    and "feature_branch opts (fst (feature_trace opts c gs ! (i - 1))) \<noteq> Disagree"
    and "fst (feature_trace opts c gs ! i) = (snd (feature_trace opts c gs ! (i - 1)))\<lparr>g_f := gs ! i\<rparr>"
proof -
  let ?tr = "feature_trace opts c gs"
  note nz = Disagree_gp_nonzero [OF d]
  show pos: "0 < i"
  proof (rule ccontr)
    assume "\<not> 0 < i"
    then have "i = 0" by simp
    with i have "fst (?tr ! i) = c\<lparr>g_f := gs ! 0\<rparr>" by (auto simp: feature_trace_first)
    with gp0 nz show False by simp
  qed
  then obtain j where j: "i = Suc j" by (cases i) auto
  with i have nx: "fst (?tr ! i) = (snd (?tr ! j))\<lparr>g_f := gs ! i\<rparr>"
    by (simp add: feature_trace_next)
  from j nx show "fst (?tr ! i) = (snd (?tr ! (i - 1)))\<lparr>g_f := gs ! i\<rparr>" by simp
  show "feature_branch opts (fst (?tr ! (i - 1))) \<noteq> Disagree"
  proof
    assume "feature_branch opts (fst (?tr ! (i - 1))) = Disagree"
    then have "gp_f (rprop_feature opts (fst (?tr ! j))) = 0"
      using j by (simp add: after_Disagree_gp)
    moreover from i j have "snd (?tr ! j) = rprop_feature opts (fst (?tr ! j))"
      by (simp add: feature_trace_step)
    ultimately show False using nz nx by simp
  qed
qed

text \<open>The example trace, evaluated.\<close>

lemmas feature_eval =
  feature_branch_def feature_pg_def rprop_feature_def pseudo_gradient_def branch_of_def
  l1_guard_def sign_def ex_opt_def Let_def

lemma feature_trace_Cons:
  "feature_trace opts c (gv # gs) =
     (c\<lparr>g_f := gv\<rparr>, rprop_feature opts (c\<lparr>g_f := gv\<rparr>)) #
     feature_trace opts (rprop_feature opts (c\<lparr>g_f := gv\<rparr>)) gs"
  by (simp add: Let_def)

lemma ex_trace_eval:
  "ex_trace =
     [(\<lparr>x_f = 0, g_f = 1, gp_f = 0, stp_f = 1 / 10, dlt_f = 0\<rparr>,
       \<lparr>x_f = - (1 / 10), g_f = 1, gp_f = 1, stp_f = 1 / 10, dlt_f = - (1 / 10)\<rparr>),
      (\<lparr>x_f = - (1 / 10), g_f = 1, gp_f = 1, stp_f = 1 / 10, dlt_f = - (1 / 10)\<rparr>,
       \<lparr>x_f = - (11 / 50), g_f = 1, gp_f = 1, stp_f = 3 / 25, dlt_f = - (3 / 25)\<rparr>),
      (\<lparr>x_f = - (11 / 50), g_f = - 1, gp_f = 1, stp_f = 3 / 25, dlt_f = - (3 / 25)\<rparr>,
       \<lparr>x_f = - (1 / 10), g_f = 0, gp_f = 0, stp_f = 3 / 50, dlt_f = - (3 / 25)\<rparr>),
      (\<lparr>x_f = - (1 / 10), g_f = - 1, gp_f = 0, stp_f = 3 / 50, dlt_f = - (3 / 25)\<rparr>,
       \<lparr>x_f = - (1 / 25), g_f = - 1, gp_f = - 1, stp_f = 3 / 50, dlt_f = 3 / 50\<rparr>)]"
proof -
  let ?o = "ex_opt 0 (1 / 1000000)"
  have s1: "rprop_feature ?o \<lparr>x_f = 0, g_f = 1, gp_f = 0, stp_f = 1 / 10, dlt_f = 0\<rparr>
      = \<lparr>x_f = - (1 / 10), g_f = 1, gp_f = 1, stp_f = 1 / 10, dlt_f = - (1 / 10)\<rparr>"
    by (simp add: feature_eval)
  have s2: "rprop_feature ?o \<lparr>x_f = - (1 / 10), g_f = 1, gp_f = 1, stp_f = 1 / 10, dlt_f = - (1 / 10)\<rparr>
      = \<lparr>x_f = - (11 / 50), g_f = 1, gp_f = 1, stp_f = 3 / 25, dlt_f = - (3 / 25)\<rparr>"
    by (simp add: feature_eval)
  have s3: "rprop_feature ?o \<lparr>x_f = - (11 / 50), g_f = - 1, gp_f = 1, stp_f = 3 / 25, dlt_f = - (3 / 25)\<rparr>
      = \<lparr>x_f = - (1 / 10), g_f = 0, gp_f = 0, stp_f = 3 / 50, dlt_f = - (3 / 25)\<rparr>"
    by (simp add: feature_eval)
  have s4: "rprop_feature ?o \<lparr>x_f = - (1 / 10), g_f = - 1, gp_f = 0, stp_f = 3 / 50, dlt_f = - (3 / 25)\<rparr>
      = \<lparr>x_f = - (1 / 25), g_f = - 1, gp_f = - 1, stp_f = 3 / 50, dlt_f = 3 / 50\<rparr>"
    by (simp add: feature_eval)
  show ?thesis
    by (simp add: ex_trace_def feature_trace_Cons s1 s2 s3 s4 del: feature_trace.simps(2))
qed

subsection \<open>The rounds of the training loop\<close>

text \<open>
  The workers are run one after the other. Their ranges are disjoint and cover
  \<open>[0, F)\<close>, so a dispatch updates every feature exactly once; since a worker reads and
  writes the cells of its own range only, the order of the workers does not matter.
\<close>

lemma spawn_prefix:
  assumes W: "1 \<le> W" "nat W < 2 ^ 64"
    and nov: "unat (nftr (mdl st)) * nat W < 2 ^ 64"
    and bounds: "\<And>i. i < unat (nftr (mdl st)) \<Longrightarrow> in_bounds st i"
  shows "m \<le> nat W \<Longrightarrow>
         \<exists>st'. fold (\<lambda>wid r. Option.bind r (trn_rpropsub wid W)) (map int [0 ..< m]) (Some st)
                 = Some st' \<and>
               updated_upto st (unat (nftr (mdl st)) * m div nat W) st'"
proof (induction m)
  case 0
  show ?case by (simp add: updated_upto_def same_shape_refl)
next
  case (Suc m)
  let ?F = "nftr (mdl st)"
  let ?a = "unat ?F * m div nat W" and ?b = "unat ?F * (m + 1) div nat W"
  from Suc obtain st1 where
    f1: "fold (\<lambda>wid r. Option.bind r (trn_rpropsub wid W)) (map int [0 ..< m]) (Some st) = Some st1"
    and u1: "updated_upto st ?a st1"
    by auto
  from u1 have sh1: "same_shape st st1" by (simp add: updated_upto_def)
  then have F1: "nftr (mdl st1) = ?F" and o1: "opt (mdl st1) = opt (mdl st)"
    by (simp_all add: same_shape_def)
  from Suc.prems W have wid: "0 \<le> int m" "int m < W" by auto
  note u = range_unat [OF wid nov W(2)]
  have ab: "?a \<le> ?b" by (intro div_le_mono mult_le_mono2) simp
  have "unat ?F * (m + 1) \<le> unat ?F * nat W" using Suc.prems by (intro mult_le_mono2) simp
  then have "?b \<le> unat ?F * nat W div nat W" by (rule div_le_mono)
  then have bF: "?b \<le> unat ?F" using W(1) by simp
  have cnt: "(word_of_int W :: 64 word) \<noteq> 0"
  proof -
    have "unat (word_of_int W :: 64 word) = nat W" using W by (intro unat_word_of_int_nat) auto
    with W(1) show ?thesis by (auto simp: unat_eq_0 [symmetric])
  qed
  have "\<forall>i. unat (rprop_from ?F (int m) W) \<le> i \<and> i < unat (rprop_to ?F (int m) W)
          \<longrightarrow> in_bounds st1 i"
    using u bF bounds sh1 by (auto simp: same_shape_in_bounds)
  from rprop_for_total [OF this] obtain st2 where
    "rprop_for (rprop_from ?F (int m) W) (rprop_to ?F (int m) W) st1 = Some st2" ..
  with cnt F1 have t: "trn_rpropsub (int m) W st1 = Some st2"
    by (simp add: trn_rpropsub_def)
  note T = trn_rpropsub_Some [OF t, unfolded F1 o1 u]
  have sh2: "same_shape st st2" using sh1 T(1) by (rule same_shape_trans)
  have upd: "get_feat st2 i = rprop_feature (opt (mdl st)) (get_feat st i)" if "i < ?b" for i
  proof (cases "i < ?a")
    case True
    then have "get_feat st2 i = get_feat st1 i" using T(3) [of i] by simp
    with True u1 show ?thesis by (simp add: updated_upto_def)
  next
    case False
    with that have "get_feat st2 i = rprop_feature (opt (mdl st)) (get_feat st1 i)"
      using T(2) [of i] by simp
    with False u1 show ?thesis by (simp add: updated_upto_def)
  qed
  have keep: "get_feat st2 i = get_feat st i" if "?b \<le> i" for i
  proof -
    from that have "get_feat st2 i = get_feat st1 i" using T(3) [of i] by simp
    moreover from that ab have "?a \<le> i" by simp
    ultimately show ?thesis using u1 by (simp add: updated_upto_def)
  qed
  have "fold (\<lambda>wid r. Option.bind r (trn_rpropsub wid W)) (map int [0 ..< Suc m]) (Some st)
          = Some st2"
    using f1 t by simp
  moreover have "updated_upto st (unat ?F * Suc m div nat W) st2"
    using sh2 upd keep by (simp add: updated_upto_def)
  ultimately show ?case by blast
qed

lemma mth_spawn_cells:
  assumes W: "1 \<le> W" "nat W < 2 ^ 64"
    and nov: "unat (nftr (mdl st)) * nat W < 2 ^ 64"
    and bounds: "\<And>i. i < unat (nftr (mdl st)) \<Longrightarrow> in_bounds st i"
  shows "\<exists>st'. mth_spawn trn_rpropsub W st = Some st' \<and>
               updated_upto st (unat (nftr (mdl st))) st'"
proof -
  from W(1) have "unat (nftr (mdl st)) * nat W div nat W = unat (nftr (mdl st))" by simp
  with spawn_prefix [OF assms, of "nat W"] show ?thesis by (simp add: mth_spawn_def)
qed

text \<open>
  One round of the training loop is one update of every feature, and a sequence of
  rounds acts on every feature as the trace of that feature says.
\<close>

lemma iteration_cells:
  assumes wf: "well_formed W st"
  shows "\<exists>st'. mth_spawn trn_rpropsub (int_of_size W) (fill_gradient gv st)
                 = Some st' \<and>
               same_shape st st' \<and>
               (\<forall>i < unat (nftr (mdl st)).
                  get_feat st' i = rprop_feature (opt (mdl st)) ((get_feat st i)\<lparr>g_f := gv i\<rparr>))"
proof -
  let ?st = "fill_gradient gv st" and ?W = "int_of_size W"
  have sh: "same_shape st ?st" by (rule same_shape_fill)
  then have m: "nftr (mdl ?st) = nftr (mdl st)" "opt (mdl ?st) = opt (mdl st)"
    by (simp_all add: same_shape_def)
  from wf have W: "1 \<le> ?W" and nov: "unat (nftr (mdl ?st)) * nat ?W < 2 ^ 64"
    by (simp_all add: well_formed_def m)
  have b: "in_bounds ?st i" if "i < unat (nftr (mdl ?st))" for i
    using that wf by (simp add: in_bounds_def well_formed_def fill_gradient_def)
  from mth_spawn_cells [OF W int_of_size_less nov b] obtain st' where
    s: "mth_spawn trn_rpropsub ?W ?st = Some st'"
    and u: "updated_upto ?st (unat (nftr (mdl ?st))) st'"
    by blast
  from u sh have "same_shape st st'" by (auto simp: updated_upto_def intro: same_shape_trans)
  moreover have "get_feat st' i = rprop_feature (opt (mdl st)) ((get_feat st i)\<lparr>g_f := gv i\<rparr>)"
    if "i < unat (nftr (mdl st))" for i
  proof -
    from that wf have "i < length (g st)" by (simp add: well_formed_def)
    then show ?thesis using u that by (simp add: updated_upto_def m get_feat_fill)
  qed
  ultimately show ?thesis using s by blast
qed

lemma iterations_cells:
  "well_formed W st \<Longrightarrow>
     \<exists>st'. rprop_iterations W st gvs = Some st' \<and> same_shape st st' \<and>
           (\<forall>i < unat (nftr (mdl st)).
              get_feat st' i = feature_final (opt (mdl st)) (get_feat st i) (map (\<lambda>gv. gv i) gvs))"
proof (induction gvs arbitrary: st)
  case Nil
  show ?case by (simp add: same_shape_refl feature_final_def)
next
  case (Cons gv gvs)
  from iteration_cells [OF Cons.prems, of gv] obtain st1 where
    s: "mth_spawn trn_rpropsub (int_of_size W) (fill_gradient gv st) = Some st1"
    and sh: "same_shape st st1"
    and c: "\<And>i. i < unat (nftr (mdl st)) \<Longrightarrow>
              get_feat st1 i = rprop_feature (opt (mdl st)) ((get_feat st i)\<lparr>g_f := gv i\<rparr>)"
    by blast
  from sh have m: "nftr (mdl st1) = nftr (mdl st)" "opt (mdl st1) = opt (mdl st)"
    by (simp_all add: same_shape_def)
  from Cons.IH [OF well_formed_same_shape [OF sh Cons.prems]] obtain st' where
    r: "rprop_iterations W st1 gvs = Some st'" and sh': "same_shape st1 st'"
    and c': "\<And>i. i < unat (nftr (mdl st1)) \<Longrightarrow>
              get_feat st' i = feature_final (opt (mdl st1)) (get_feat st1 i) (map (\<lambda>gv. gv i) gvs)"
    by blast
  have "rprop_iterations W st (gv # gvs) = Some st'" using s r by simp
  moreover have "same_shape st st'" using sh sh' by (rule same_shape_trans)
  moreover have "get_feat st' i
      = feature_final (opt (mdl st)) (get_feat st i) (map (\<lambda>gv. gv i) (gv # gvs))"
    if "i < unat (nftr (mdl st))" for i
    using c [OF that] c' [of i] that by (simp add: m feature_final_def)
  ultimately show ?case by blast
qed

text \<open>
  The cell of a feature after some rounds is the last cell of the feature's trace under
  the gradients of these rounds.
\<close>

lemma iterations_trace:
  assumes "well_formed W st" and "gvs \<noteq> []" and "i < unat (nftr (mdl st))"
  shows "\<exists>st'. rprop_iterations W st gvs = Some st' \<and>
           get_feat st' i
             = snd (last (feature_trace (opt (mdl st)) (get_feat st i) (map (\<lambda>gv. gv i) gvs)))"
proof -
  from iterations_cells [OF assms(1), of gvs] assms(3) obtain st' where
    "rprop_iterations W st gvs = Some st'"
    "get_feat st' i = feature_final (opt (mdl st)) (get_feat st i) (map (\<lambda>gv. gv i) gvs)"
    by blast
  moreover from assms(2) have "map (\<lambda>gv. gv i) gvs \<noteq> []" by simp
  ultimately show ?thesis by (simp add: feature_trace_final)
qed

text \<open>
  After the initialisation the first update of every feature takes the neutral branch,
  which writes \<^verbatim>\<open>dlt[f]\<close> before any update reads it.
\<close>

lemma first_round_neutral:
  assumes "rprop_start mem m = Some st" and "i < unat (nftr m)"
  shows "feature_branch (opt m) ((get_feat st i)\<lparr>g_f := gv\<rparr>) = Neutral"
proof -
  from rprop_start_Some(6) [OF assms] have "gp_f ((get_feat st i)\<lparr>g_f := gv\<rparr>) = 0"
    by (simp add: get_feat_def)
  then show ?thesis by (rule gp_zero_Neutral)
qed

text \<open>
  Two rounds in a row: when a feature disagrees in the second, it did not in the first,
  its delta is the difference that the first round made to its weight, and the second
  round takes the weight back.
\<close>

lemma rounds_disagree_reverts:
  assumes wf: "well_formed W st1"
    and r1: "mth_spawn trn_rpropsub (int_of_size W) (fill_gradient gv1 st1) = Some st2"
    and r2: "mth_spawn trn_rpropsub (int_of_size W) (fill_gradient gv2 st2) = Some st3"
    and i: "i < unat (nftr (mdl st1))"
    and d: "feature_branch (opt (mdl st1)) ((get_feat st2 i)\<lparr>g_f := gv2 i\<rparr>) = Disagree"
  shows "feature_branch (opt (mdl st1)) ((get_feat st1 i)\<lparr>g_f := gv1 i\<rparr>) \<noteq> Disagree"
    and "dlt st2 ! i = theta (mdl st2) ! i - theta (mdl st1) ! i"
    and "theta (mdl st3) ! i = theta (mdl st1) ! i"
proof -
  let ?o = "opt (mdl st1)"
  let ?c1 = "(get_feat st1 i)\<lparr>g_f := gv1 i\<rparr>" and ?c2 = "(get_feat st2 i)\<lparr>g_f := gv2 i\<rparr>"
  from iteration_cells [OF wf, of gv1] r1 i have
    sh: "same_shape st1 st2" and c2: "get_feat st2 i = rprop_feature ?o ?c1"
    by auto
  then have wf2: "well_formed W st2" and m: "nftr (mdl st2) = nftr (mdl st1)" "opt (mdl st2) = ?o"
    using wf by (auto simp: same_shape_def intro: well_formed_same_shape)
  from iteration_cells [OF wf2, of gv2] r2 i m have c3: "get_feat st3 i = rprop_feature ?o ?c2"
    by auto
  from Disagree_gp_nonzero [OF d] have nz: "gp_f (rprop_feature ?o ?c1) \<noteq> 0" by (simp add: c2)
  show nd: "feature_branch ?o ?c1 \<noteq> Disagree"
  proof
    assume "feature_branch ?o ?c1 = Disagree"
    then have "gp_f (rprop_feature ?o ?c1) = 0" by (rule after_Disagree_gp)
    with nz show False by simp
  qed
  have x2: "x_f (get_feat st2 i) = x_f ?c1 + dlt_f (get_feat st2 i)"
    using applied_delta [OF nd] by (simp add: c2)
  then show "dlt st2 ! i = theta (mdl st2) ! i - theta (mdl st1) ! i"
    by (simp add: get_feat_def)
  have "x_f (get_feat st3 i) = x_f ?c2 - dlt_f ?c2"
    by (simp add: c3 rprop_feature_Disagree [OF d])
  with x2 have "x_f (get_feat st3 i) = x_f (get_feat st1 i)" by simp
  then show "theta (mdl st3) ! i = theta (mdl st1) ! i" by (simp add: get_feat_def)
qed

text \<open>
  What the training loop returns is the state after some rounds, with at most a last
  gradient that no update has used.
\<close>

lemma trn_rprop_loop_iterations:
  "trn_rprop_loop env K W k (st, n) = Some (st', n') \<Longrightarrow>
     \<exists>gvs st''. n' = n + length gvs \<and> rprop_iterations W st gvs = Some st'' \<and>
                (st' = st'' \<or> (\<exists>gv. st' = fill_gradient gv st''))"
proof (induction env K W k "(st, n)" arbitrary: st n rule: trn_rprop_loop.induct)
  case (1 env K W k st n)
  show ?case
  proof (cases "\<not> uit_stop_loop env k \<and> k < K")
    case False
    with "1.prems" have "st' = st" "n' = n" by auto
    then have "n' = n + length [] \<and> rprop_iterations W st [] = Some st \<and> st' = st" by simp
    then show ?thesis by blast
  next
    case True
    obtain gv fx where gr: "grd_gradient env k (mdl st) = (gv, fx)"
      by (cases "grd_gradient env k (mdl st)")
    show ?thesis
    proof (cases "uit_stop_grad env k")
      case stop: True
      with True gr "1.prems" have "st' = fill_gradient gv st" "n' = n" by auto
      then have "n' = n + length [] \<and> rprop_iterations W st [] = Some st \<and>
                 (\<exists>gv. st' = fill_gradient gv st)" by auto
      then show ?thesis by blast
    next
      case nostop: False
      from True gr nostop "1.prems" obtain st2 where
        s: "mth_spawn trn_rpropsub (int_of_size W) (fill_gradient gv st) = Some st2"
        by (auto split: option.splits)
      show ?thesis
      proof (cases "uit_progress env (mdl st2) (k + 1) fx")
        case False
        with True gr nostop s "1.prems" have "st' = st2" "n' = Suc n" by auto
        then have "n' = n + length [gv] \<and> rprop_iterations W st [gv] = Some st2 \<and> st' = st2"
          using s by simp
        then show ?thesis by blast
      next
        case go: True
        with True gr nostop s "1.prems"
        have r: "trn_rprop_loop env K W (k + 1) (st2, Suc n) = Some (st', n')" by auto
        from go have go0: "uit_progress env (mdl st2) (k + 1) fx \<noteq> False" by simp
        have "\<exists>gvs st''. n' = Suc n + length gvs \<and> rprop_iterations W st2 gvs = Some st'' \<and>
                (st' = st'' \<or> (\<exists>gv. st' = fill_gradient gv st''))"
          by (rule "1.hyps" [OF True refl gr [symmetric] refl nostop s go0 r])
        then obtain gvs st'' where
          g: "n' = Suc n + length gvs" "rprop_iterations W st2 gvs = Some st''"
             "st' = st'' \<or> (\<exists>gv. st' = fill_gradient gv st'')"
          by blast
        have "n' = n + length (gv # gvs) \<and> rprop_iterations W st (gv # gvs) = Some st'' \<and>
              (st' = st'' \<or> (\<exists>gv. st' = fill_gradient gv st''))"
          using g s by simp
        then show ?thesis by blast
      qed
    qed
  qed
qed

section \<open>The claims\<close>

subsection \<open>The pseudo-gradient\<close>

text \<open>
  Claim C1. For every feature that the partial weight update visits, the pseudo-gradient
  computed from \<^verbatim>\<open>g[f]\<close> is the one the specification lists: \<^verbatim>\<open>g[f]\<close> when
  \<open>\<rho>\<^sub>1 = 0\<close>; otherwise \<^verbatim>\<open>g[f]\<close> minus \<open>\<rho>\<^sub>1\<close> for a negative weight, plus \<open>\<rho>\<^sub>1\<close> for a
  positive weight, and for a zero weight plus \<open>\<rho>\<^sub>1\<close> when \<^verbatim>\<open>g[f]\<close> is below \<open>- \<rho>\<^sub>1\<close>,
  minus \<open>\<rho>\<^sub>1\<close> when it is above \<open>\<rho>\<^sub>1\<close>, and zero otherwise. The cases are read in the
  order of the list, which matters only for a negative \<open>\<rho>\<^sub>1\<close>, where the two cases of a
  zero weight overlap.
\<close>

theorem pseudo_gradient_spec:
  "feature_pg opts c = spec_pseudo_gradient (rho1 opts) (x_f c) (g_f c)"
  by (simp add: feature_pg_def pseudo_gradient_def spec_pseudo_gradient_def Let_def)

text \<open>A zero weight, \<open>\<rho>\<^sub>1 = 0.5\<close> and the gradient \<open>1\<close>: the pseudo-gradient is \<open>0.5\<close>.\<close>

theorem pseudo_gradient_spec_witness:
  "feature_pg (ex_opt (1 / 2) (1 / 1000000))
     \<lparr>x_f = 0, g_f = 1, gp_f = 0, stp_f = 1 / 10, dlt_f = 0\<rparr> = 1 / 2 \<and>
   spec_pseudo_gradient (1 / 2) 0 1 = 1 / 2"
  using pseudo_gradient_spec [of "ex_opt (1 / 2) (1 / 1000000)"
      "\<lparr>x_f = 0, g_f = 1, gp_f = 0, stp_f = 1 / 10, dlt_f = 0\<rparr>"]
  by (simp add: spec_pseudo_gradient_def ex_opt_def)

text \<open>For a positive \<open>\<rho>\<^sub>1\<close> the cases exclude each other, and each holds on its own.\<close>

lemma pseudo_gradient_cases:
  assumes "0 < rho"
  shows "xv < 0 \<Longrightarrow> pseudo_gradient rho xv gv = gv - rho"
    and "xv > 0 \<Longrightarrow> pseudo_gradient rho xv gv = gv + rho"
    and "xv = 0 \<Longrightarrow> gv < - rho \<Longrightarrow> pseudo_gradient rho xv gv = gv + rho"
    and "xv = 0 \<Longrightarrow> gv > rho \<Longrightarrow> pseudo_gradient rho xv gv = gv - rho"
    and "xv = 0 \<Longrightarrow> - rho \<le> gv \<Longrightarrow> gv \<le> rho \<Longrightarrow> pseudo_gradient rho xv gv = 0"
  using assms by (simp_all add: pseudo_gradient_def)

subsection \<open>The concrete trace\<close>

text \<open>
  Claim C2. One feature, one worker, \<open>x = 0\<close>, step bounds \<open>10\<^sup>-\<^sup>6\<close> and \<open>50\<close>, factors
  \<open>1.2\<close> and \<open>0.5\<close>, no L1 penalty. The initialisation gives the step \<open>0.1\<close> and the
  previous gradient \<open>0\<close>; the gradients \<open>1\<close>, \<open>1\<close>, \<open>- 1\<close>, each followed by one partial
  weight update, give \<open>x = - 0.10\<close>, \<open>stp = 0.10\<close>, \<open>gp = 1\<close>, then \<open>x = - 0.22\<close>,
  \<open>stp = 0.12\<close>, \<open>gp = 1\<close>, then \<open>x = - 0.10\<close>, \<open>stp = 0.06\<close>, \<open>gp = 0\<close>, whatever the
  fresh memory holds.
\<close>

theorem concrete_trace:
  "rprop_start mem \<lparr>opt = ex_opt 0 (1 / 1000000), nftr = 1, theta = [0]\<rparr>
     = Some (ex_state (ex_opt 0 (1 / 1000000)) 0 (new_g mem 0) 0 (1 / 10) (new_dlt mem 0)) \<and>
   rprop_run (ex_state (ex_opt 0 (1 / 1000000)) 0 (new_g mem 0) 0 (1 / 10) (new_dlt mem 0))
     [Gradient (\<lambda>f. 1), Update 0 1]
     = Some (ex_state (ex_opt 0 (1 / 1000000)) (- 10 / 100) 1 1 (10 / 100) (- 10 / 100)) \<and>
   rprop_run (ex_state (ex_opt 0 (1 / 1000000)) 0 (new_g mem 0) 0 (1 / 10) (new_dlt mem 0))
     [Gradient (\<lambda>f. 1), Update 0 1, Gradient (\<lambda>f. 1), Update 0 1]
     = Some (ex_state (ex_opt 0 (1 / 1000000)) (- 22 / 100) 1 1 (12 / 100) (- 12 / 100)) \<and>
   rprop_run (ex_state (ex_opt 0 (1 / 1000000)) 0 (new_g mem 0) 0 (1 / 10) (new_dlt mem 0))
     [Gradient (\<lambda>f. 1), Update 0 1, Gradient (\<lambda>f. 1), Update 0 1,
      Gradient (\<lambda>f. - 1), Update 0 1]
     = Some (ex_state (ex_opt 0 (1 / 1000000)) (- 10 / 100) 0 0 (6 / 100) (- 12 / 100))"
  by (simp add: rprop_start_def xvm_new_def rprop_init.simps rprop_eval)

text \<open>The trace when the fresh memory holds zeros.\<close>

theorem concrete_trace_witness:
  "rprop_run (ex_state (ex_opt 0 (1 / 1000000)) 0 0 0 (1 / 10) 0)
     [Gradient (\<lambda>f. 1), Update 0 1, Gradient (\<lambda>f. 1), Update 0 1,
      Gradient (\<lambda>f. - 1), Update 0 1]
     = Some (ex_state (ex_opt 0 (1 / 1000000)) (- 10 / 100) 0 0 (6 / 100) (- 12 / 100))"
  using concrete_trace [of ex_mem] by (simp add: ex_mem_def)

text \<open>The training loop itself, with three iterations and these gradients, ends in the
  last state of the trace after three dispatches.\<close>

lemma concrete_trace_loop:
  "trn_rprop trace_env mem \<lparr>opt = ex_opt 0 (1 / 1000000), nftr = 1, theta = [0]\<rparr>
     = Some (ex_state (ex_opt 0 (1 / 1000000)) (- 10 / 100) 0 0 (6 / 100) (- 12 / 100), 3)"
  by (simp add: trn_rprop_def rprop_start_def xvm_new_def rprop_init.simps trace_env_def
      mth_spawn_def int_of_size_def rprop_eval)

subsection \<open>The bounds of the step size\<close>

text \<open>
  Claim C3, as amended. Let the options satisfy \<open>0 \<le> stepMin \<le> 0.1 \<le> stepMax\<close>,
  \<open>1 \<le> stepIncreaseFactor\<close> and \<open>stepDecreaseFactor \<le> 1\<close>. Then after the
  initialisation and any sequence of gradient refills and partial weight updates, with
  any worker ids and counts, the step size of every feature lies in
  \<open>[stepMin, stepMax]\<close>.
\<close>

theorem step_size_bounded:
  assumes "0 \<le> stpmin (rprop (opt m))" and "stpmin (rprop (opt m)) \<le> 1 / 10"
    and "1 / 10 \<le> stpmax (rprop (opt m))"
    and "1 \<le> stpinc (rprop (opt m))" and "stpdec (rprop (opt m)) \<le> 1"
    and start: "rprop_start mem m = Some st0" and run: "rprop_run st0 es = Some st"
  shows "step_bounded st \<and> length (stp st) = unat (nftr m)"
proof -
  note S = rprop_start_Some [OF start]
  have "stpmin (rprop (opt m)) \<le> stp st0 ! i \<and> stp st0 ! i \<le> stpmax (rprop (opt m))"
    if "i < unat (nftr m)" for i
    using assms(2,3) S(6) [OF that] by simp
  then have "step_bounded st0"
    using S(1,2) by (simp add: step_bounded_def list_all_length)
  with assms(1,4,5) S(1) run have "step_bounded st \<and> same_shape st0 st"
    by (intro rprop_run_step_bounded) simp_all
  with S(2) show ?thesis by (simp add: same_shape_def)
qed

text \<open>
  The options of the concrete trace satisfy the hypotheses; the state after two rounds
  has the step \<open>0.12\<close>.
\<close>

theorem step_size_bounded_witness:
  "0 \<le> stpmin (rprop (ex_opt 0 (1 / 1000000))) \<and>
   stpmin (rprop (ex_opt 0 (1 / 1000000))) \<le> 1 / 10 \<and>
   1 / 10 \<le> stpmax (rprop (ex_opt 0 (1 / 1000000))) \<and>
   1 \<le> stpinc (rprop (ex_opt 0 (1 / 1000000))) \<and>
   stpdec (rprop (ex_opt 0 (1 / 1000000))) \<le> 1 \<and>
   rprop_start ex_mem \<lparr>opt = ex_opt 0 (1 / 1000000), nftr = 1, theta = [0]\<rparr>
     = Some (ex_state (ex_opt 0 (1 / 1000000)) 0 0 0 (1 / 10) 0) \<and>
   rprop_run (ex_state (ex_opt 0 (1 / 1000000)) 0 0 0 (1 / 10) 0)
       [Gradient (\<lambda>f. 1), Update 0 1, Gradient (\<lambda>f. 1), Update 0 1]
     = Some (ex_state (ex_opt 0 (1 / 1000000)) (- 22 / 100) 1 1 (12 / 100) (- 12 / 100)) \<and>
   step_bounded (ex_state (ex_opt 0 (1 / 1000000)) (- 22 / 100) 1 1 (12 / 100) (- 12 / 100))"
proof -
  have s: "rprop_start ex_mem \<lparr>opt = ex_opt 0 (1 / 1000000), nftr = 1, theta = [0]\<rparr>
     = Some (ex_state (ex_opt 0 (1 / 1000000)) 0 0 0 (1 / 10) 0)"
    by (simp add: rprop_start_def xvm_new_def rprop_init.simps ex_mem_def rprop_eval)
  have r: "rprop_run (ex_state (ex_opt 0 (1 / 1000000)) 0 0 0 (1 / 10) 0)
       [Gradient (\<lambda>f. 1), Update 0 1, Gradient (\<lambda>f. 1), Update 0 1]
     = Some (ex_state (ex_opt 0 (1 / 1000000)) (- 22 / 100) 1 1 (12 / 100) (- 12 / 100))"
    by (simp add: rprop_eval)
  from step_size_bounded [OF _ _ _ _ _ s r] s r show ?thesis
    by (simp add: ex_opt_def)
qed

text \<open>
  With \<open>stepMin = 1\<close> the initial step \<open>0.1\<close> lies below the interval \<open>[1, 50]\<close>, and
  the first update, which takes the neutral branch, leaves it there.
\<close>

theorem step_size_counterexample:
  "rprop_start ex_mem \<lparr>opt = ex_opt 0 1, nftr = 1, theta = [0]\<rparr>
     = Some (ex_state (ex_opt 0 1) 0 0 0 (1 / 10) 0) \<and>
   rprop_run (ex_state (ex_opt 0 1) 0 0 0 (1 / 10) 0) [Gradient (\<lambda>f. 1), Update 0 1]
     = Some (ex_state (ex_opt 0 1) (- 1 / 10) 1 1 (1 / 10) (- 1 / 10)) \<and>
   \<not> step_bounded (ex_state (ex_opt 0 1) (- 1 / 10) 1 1 (1 / 10) (- 1 / 10)) \<and>
   stpmin (rprop (ex_opt 0 1)) = 1 \<and> stpmax (rprop (ex_opt 0 1)) = 50"
  by (simp add: rprop_start_def xvm_new_def rprop_init.simps ex_mem_def rprop_eval step_bounded_def)

subsection \<open>The partition of the features among the workers\<close>




subsection \<open>Without L1 penalty\<close>

text \<open>
  Claim C5. When \<open>\<rho>\<^sub>1 = 0\<close> the loop body is the classical RPROP rule: on every cell it
  gives what the rule gives with the raw gradient as the pseudo-gradient, no projection
  and no zeroing of the delta.
\<close>

theorem no_l1_is_classical:
  assumes "rho1 opts = 0"
  shows "rprop_feature opts c = classical_rprop (rprop opts) c"
proof -
  from assms have pg: "feature_pg opts c = g_f c"
    by (simp add: feature_pg_def pseudo_gradient_def)
  show ?thesis
  proof (cases "feature_branch opts c")
    case Agree
    then have "gp_f c * g_f c > 0"
      using pg by (simp add: feature_branch_def branch_of_def split: if_splits)
    then show ?thesis
      using assms pg Agree
      by (simp add: rprop_feature_Agree classical_rprop_def l1_guard_def tentative_delta_def Let_def)
  next
    case Disagree
    then have "\<not> gp_f c * g_f c > 0" "gp_f c * g_f c < 0"
      using pg by (simp_all add: feature_branch_def branch_of_def split: if_splits)
    then show ?thesis
      using Disagree by (simp add: rprop_feature_Disagree classical_rprop_def)
  next
    case Neutral
    then have "\<not> gp_f c * g_f c > 0" "\<not> gp_f c * g_f c < 0"
      using pg by (simp_all add: feature_branch_def branch_of_def split: if_splits)
    then show ?thesis
      using assms pg Neutral
      by (auto simp: rprop_feature_Neutral classical_rprop_def l1_guard_def tentative_delta_def Let_def)
  qed
qed

text \<open>
  The second update of the concrete trace, an accelerating one.
\<close>

theorem no_l1_is_classical_witness:
  "rho1 (ex_opt 0 (1 / 1000000)) = 0 \<and>
   rprop_feature (ex_opt 0 (1 / 1000000))
       \<lparr>x_f = - 1 / 10, g_f = 1, gp_f = 1, stp_f = 1 / 10, dlt_f = - 1 / 10\<rparr>
     = classical_rprop (rprop (ex_opt 0 (1 / 1000000)))
         \<lparr>x_f = - 1 / 10, g_f = 1, gp_f = 1, stp_f = 1 / 10, dlt_f = - 1 / 10\<rparr>"
  using no_l1_is_classical [of "ex_opt 0 (1 / 1000000)"] by (simp add: ex_opt_def)

subsection \<open>Reverting the last step\<close>



subsection \<open>The guard of the L1 penalty\<close>

text \<open>
  Claim C7, as amended. With the L1 penalty enabled, in the agree and in the neutral
  branch, the delta that is applied is \<open>0\<close> when the tentative delta times the
  pseudo-gradient is not negative, and the tentative delta otherwise; the weight moves
  by the applied delta, which is \<open>0\<close> or opposite in sign to the pseudo-gradient. The
  guard looks at the direction of the step only, not at its length. In particular there
  is an input with a positive weight and a positive \<open>\<rho>\<^sub>1\<close> where the step taken from the
  raw gradient is not zero and the applied update is.
\<close>

theorem l1_guard_zeroes_delta:
  "(rho1 opts \<noteq> 0 \<and> feature_branch opts c \<noteq> Disagree \<longrightarrow>
      dlt_f (rprop_feature opts c) =
        (if tentative_delta opts c * feature_pg opts c \<ge> 0 then 0 else tentative_delta opts c) \<and>
      x_f (rprop_feature opts c) = x_f c + dlt_f (rprop_feature opts c) \<and>
      (dlt_f (rprop_feature opts c) = 0 \<or> dlt_f (rprop_feature opts c) * feature_pg opts c < 0)) \<and>
   (\<exists>opts' c'. 0 < rho1 opts' \<and> 0 < x_f c' \<and> feature_branch opts' c' = Agree \<and>
      tentative_delta opts' c' \<noteq> 0 \<and> dlt_f (rprop_feature opts' c') = 0 \<and>
      x_f (rprop_feature opts' c') = x_f c')"
proof (rule conjI)
  show "rho1 opts \<noteq> 0 \<and> feature_branch opts c \<noteq> Disagree \<longrightarrow>
      dlt_f (rprop_feature opts c) =
        (if tentative_delta opts c * feature_pg opts c \<ge> 0 then 0 else tentative_delta opts c) \<and>
      x_f (rprop_feature opts c) = x_f c + dlt_f (rprop_feature opts c) \<and>
      (dlt_f (rprop_feature opts c) = 0 \<or> dlt_f (rprop_feature opts c) * feature_pg opts c < 0)"
  proof (cases "feature_branch opts c")
    case Agree
    then show ?thesis by (simp add: rprop_feature_Agree l1_guard_def)
  next
    case Disagree
    then show ?thesis by simp
  next
    case Neutral
    then show ?thesis by (simp add: rprop_feature_Neutral l1_guard_def)
  qed
next
  let ?o = "ex_opt (1 / 2) (1 / 1000000)"
  let ?c = "\<lparr>x_f = 1, g_f = - 2 / 10, gp_f = 1, stp_f = 1 / 10, dlt_f = 0\<rparr>"
  have "0 < rho1 ?o \<and> 0 < x_f ?c \<and> feature_branch ?o ?c = Agree \<and>
      tentative_delta ?o ?c \<noteq> 0 \<and> dlt_f (rprop_feature ?o ?c) = 0 \<and>
      x_f (rprop_feature ?o ?c) = x_f ?c"
    by (simp add: tentative_delta_def feature_eval)
  then show "\<exists>opts' c'. 0 < rho1 opts' \<and> 0 < x_f c' \<and> feature_branch opts' c' = Agree \<and>
      tentative_delta opts' c' \<noteq> 0 \<and> dlt_f (rprop_feature opts' c') = 0 \<and>
      x_f (rprop_feature opts' c') = x_f c'"
    by blast
qed

text \<open>
  A positive weight, \<open>\<rho>\<^sub>1 = 0.5\<close> and the raw gradient \<open>- 0.2\<close>: the pseudo-gradient is
  \<open>0.3\<close>, the tentative delta \<open>0.12\<close> follows the raw gradient, and the update is zero.
\<close>

theorem l1_guard_zeroes_delta_witness:
  "rho1 (ex_opt (1 / 2) (1 / 1000000)) \<noteq> 0 \<and>
   feature_branch (ex_opt (1 / 2) (1 / 1000000))
     \<lparr>x_f = 1, g_f = - 2 / 10, gp_f = 1, stp_f = 1 / 10, dlt_f = 0\<rparr> = Agree \<and>
   feature_pg (ex_opt (1 / 2) (1 / 1000000))
     \<lparr>x_f = 1, g_f = - 2 / 10, gp_f = 1, stp_f = 1 / 10, dlt_f = 0\<rparr> = 3 / 10 \<and>
   tentative_delta (ex_opt (1 / 2) (1 / 1000000))
     \<lparr>x_f = 1, g_f = - 2 / 10, gp_f = 1, stp_f = 1 / 10, dlt_f = 0\<rparr> = 12 / 100 \<and>
   dlt_f (rprop_feature (ex_opt (1 / 2) (1 / 1000000))
     \<lparr>x_f = 1, g_f = - 2 / 10, gp_f = 1, stp_f = 1 / 10, dlt_f = 0\<rparr>) = 0 \<and>
   x_f (rprop_feature (ex_opt (1 / 2) (1 / 1000000))
     \<lparr>x_f = 1, g_f = - 2 / 10, gp_f = 1, stp_f = 1 / 10, dlt_f = 0\<rparr>) = 1"
  using l1_guard_zeroes_delta [of "ex_opt (1 / 2) (1 / 1000000)"
      "\<lparr>x_f = 1, g_f = - 2 / 10, gp_f = 1, stp_f = 1 / 10, dlt_f = 0\<rparr>"]
  by (simp add: feature_branch_def feature_pg_def tentative_delta_def pseudo_gradient_def
      branch_of_def sign_def ex_opt_def)

text \<open>
  The weight \<open>0.05\<close>, \<open>\<rho>\<^sub>1 = 0.5\<close>, the gradient \<open>1\<close> and the step \<open>0.1\<close>: the agree
  branch applies the delta \<open>- 0.12\<close>, which the guard lets pass, and the weight goes
  from the positive to the negative side in one step.
\<close>

theorem orthant_crossing_counterexample:
  "rho1 (ex_opt (1 / 2) (1 / 1000000)) \<noteq> 0 \<and>
   feature_branch (ex_opt (1 / 2) (1 / 1000000))
     \<lparr>x_f = 5 / 100, g_f = 1, gp_f = 1, stp_f = 1 / 10, dlt_f = 0\<rparr> = Agree \<and>
   0 < x_f \<lparr>x_f = 5 / 100, g_f = 1, gp_f = 1, stp_f = 1 / 10, dlt_f = 0 :: real\<rparr> \<and>
   rprop_feature (ex_opt (1 / 2) (1 / 1000000))
     \<lparr>x_f = 5 / 100, g_f = 1, gp_f = 1, stp_f = 1 / 10, dlt_f = 0\<rparr>
     = \<lparr>x_f = - 7 / 100, g_f = 1, gp_f = 1, stp_f = 12 / 100, dlt_f = - 12 / 100\<rparr>"
  by (simp add: feature_branch_def feature_pg_def rprop_feature_def pseudo_gradient_def
      branch_of_def l1_guard_def sign_def ex_opt_def Let_def)

subsection \<open>The previous gradient\<close>

text \<open>
  Claim C8. After the update of a feature by \<^verbatim>\<open>trn_rpropsub\<close>, whatever the branch,
  \<^verbatim>\<open>gp[f]\<close> is \<^verbatim>\<open>g[f]\<close> as the update leaves it: the raw gradient, or \<open>0\<close> after the
  disagree branch. It is not the pseudo-gradient.
\<close>

theorem previous_gradient_is_raw:
  assumes "trn_rpropsub wid cnt st = Some st'"
    and "unat (rprop_from (nftr (mdl st)) wid cnt) \<le> i"
    and "i < unat (rprop_to (nftr (mdl st)) wid cnt)"
  shows "gp st' ! i = g st' ! i \<and>
         g st' ! i = (if feature_branch (opt (mdl st)) (get_feat st i) = Disagree then 0
                      else g st ! i)"
proof -
  from trn_rpropsub_Some(2) [OF assms]
  have c: "get_feat st' i = rprop_feature (opt (mdl st)) (get_feat st i)" by simp
  have "gp st' ! i = gp_f (get_feat st' i)" "g st' ! i = g_f (get_feat st' i)"
    "g st ! i = g_f (get_feat st i)"
    by (simp_all add: get_feat_def)
  then show ?thesis by (simp add: c feature_gp)
qed

text \<open>
  With \<open>\<rho>\<^sub>1 = 0.5\<close>: an agreeing update with the raw gradient \<open>1\<close> and the
  pseudo-gradient \<open>1.5\<close> leaves \<open>gp = 1\<close>; a disagreeing update with the pseudo-gradient
  \<open>- 0.5\<close> leaves \<open>gp = 0\<close>.
\<close>

theorem previous_gradient_is_raw_witness:
  "trn_rpropsub 0 1 (ex_state (ex_opt (1 / 2) (1 / 1000000)) 1 1 1 (1 / 10) 0)
     = Some (ex_state (ex_opt (1 / 2) (1 / 1000000)) (88 / 100) 1 1 (12 / 100) (- 12 / 100)) \<and>
   feature_pg (ex_opt (1 / 2) (1 / 1000000))
     (get_feat (ex_state (ex_opt (1 / 2) (1 / 1000000)) 1 1 1 (1 / 10) 0) 0) = 3 / 2 \<and>
   gp (ex_state (ex_opt (1 / 2) (1 / 1000000)) (88 / 100) 1 1 (12 / 100) (- 12 / 100)) ! 0 = 1 \<and>
   trn_rpropsub 0 1 (ex_state (ex_opt (1 / 2) (1 / 1000000)) (88 / 100) (- 1) 1 (12 / 100) (- 12 / 100))
     = Some (ex_state (ex_opt (1 / 2) (1 / 1000000)) 1 0 0 (6 / 100) (- 12 / 100)) \<and>
   feature_pg (ex_opt (1 / 2) (1 / 1000000))
     (get_feat (ex_state (ex_opt (1 / 2) (1 / 1000000)) (88 / 100) (- 1) 1 (12 / 100) (- 12 / 100)) 0)
     = - 1 / 2 \<and>
   gp (ex_state (ex_opt (1 / 2) (1 / 1000000)) 1 0 0 (6 / 100) (- 12 / 100)) ! 0 = 0"
proof -
  have a: "trn_rpropsub 0 1 (ex_state (ex_opt (1 / 2) (1 / 1000000)) 1 1 1 (1 / 10) 0)
     = Some (ex_state (ex_opt (1 / 2) (1 / 1000000)) (88 / 100) 1 1 (12 / 100) (- 12 / 100))"
    by (simp add: rprop_eval)
  have b: "trn_rpropsub 0 1 (ex_state (ex_opt (1 / 2) (1 / 1000000)) (88 / 100) (- 1) 1 (12 / 100) (- 12 / 100))
     = Some (ex_state (ex_opt (1 / 2) (1 / 1000000)) 1 0 0 (6 / 100) (- 12 / 100))"
    by (simp add: rprop_eval)
  have r: "unat (rprop_from (nftr (mdl (ex_state opts xv gv gpv stpv dltv))) 0 1) \<le> 0"
    "0 < unat (rprop_to (nftr (mdl (ex_state opts xv gv gpv stpv dltv))) 0 1)"
    for opts xv gv gpv stpv dltv
    by (simp_all add: rprop_from_def rprop_to_def ex_state_def)
  from previous_gradient_is_raw [OF a r] previous_gradient_is_raw [OF b r] a b
  show ?thesis
    by (simp add: feature_pg_def feature_branch_def rprop_eval)
qed

subsection \<open>The stop flag\<close>

text \<open>
  Claim C9. In every iteration of the training loop, if the stop flag is set when the
  gradient computation has returned, the loop returns without a dispatch: the number of
  dispatches is as it was, and so are the weights, the previous gradients, the steps and
  the deltas; only the gradient buffer holds the new gradient, which no update uses.
\<close>

theorem stop_after_gradient:
  assumes "\<not> uit_stop_loop env k" and "k < K" and "uit_stop_grad env k"
  shows "\<exists>st'. trn_rprop_loop env K W k (st, n) = Some (st', n) \<and>
           g st' = map (fst (grd_gradient env k (mdl st))) [0 ..< length (g st)] \<and>
           mdl st' = mdl st \<and> gp st' = gp st \<and> stp st' = stp st \<and> dlt st' = dlt st"
  using assms by (simp add: fill_gradient_def split: prod.splits)

text \<open>
  A first iteration with the flag set after the gradient: no dispatch, the state is as
  the initialisation left it, up to the gradient buffer.
\<close>

theorem stop_after_gradient_witness:
  "\<not> uit_stop_loop (ex_env True) 0 \<and> (0 :: int) < 3 \<and> uit_stop_grad (ex_env True) 0 \<and>
   (\<exists>st'. trn_rprop_loop (ex_env True) 3 1 0 (ex_state (ex_opt 0 (1 / 1000000)) 0 7 0 (1 / 10) 0, 0)
             = Some (st', 0) \<and>
          g st' = [1] \<and> theta (mdl st') = [0] \<and> gp st' = [0] \<and> stp st' = [1 / 10] \<and>
          dlt st' = [0])"
  using stop_after_gradient [of "ex_env True" 0 3 1 "ex_state (ex_opt 0 (1 / 1000000)) 0 7 0 (1 / 10) 0" 0]
  by (auto simp: ex_env_def ex_state_def)

subsection \<open>No two disagreements in a row\<close>

text \<open>
  Claim C10. In the successive updates of one feature, the update after a disagreeing
  one finds the previous gradient \<open>0\<close> and takes the neutral branch, so two consecutive
  updates never both disagree. When the updates start from the initialised state, a
  disagreeing update is never the first, the update before it took the agree or the
  neutral branch, and the \<^verbatim>\<open>dlt[f]\<close> that the disagreeing update reads is the delta that
  this earlier update applied to the weight.
\<close>

theorem disagree_never_twice:
  assumes i: "i < length gs"
    and d: "feature_branch opts (fst (feature_trace opts c gs ! i)) = Disagree"
  shows "(Suc i < length gs \<longrightarrow>
            gp_f (fst (feature_trace opts c gs ! Suc i)) = 0 \<and>
            feature_branch opts (fst (feature_trace opts c gs ! Suc i)) = Neutral) \<and>
         (gp_f c = 0 \<longrightarrow>
            0 < i \<and>
            feature_branch opts (fst (feature_trace opts c gs ! (i - 1))) \<noteq> Disagree \<and>
            dlt_f (fst (feature_trace opts c gs ! i))
              = dlt_f (snd (feature_trace opts c gs ! (i - 1))) \<and>
            x_f (snd (feature_trace opts c gs ! (i - 1)))
              = x_f (fst (feature_trace opts c gs ! (i - 1)))
                + dlt_f (snd (feature_trace opts c gs ! (i - 1))))"
proof (intro conjI impI)
  let ?tr = "feature_trace opts c gs"
  assume s: "Suc i < length gs"
  from i have "snd (?tr ! i) = rprop_feature opts (fst (?tr ! i))" by (rule feature_trace_step)
  with d have "gp_f (snd (?tr ! i)) = 0" by (simp add: after_Disagree_gp)
  then show "gp_f (fst (?tr ! Suc i)) = 0" using s by (simp add: feature_trace_next)
  then show "feature_branch opts (fst (?tr ! Suc i)) = Neutral" by (rule gp_zero_Neutral)
next
  let ?tr = "feature_trace opts c gs"
  assume gp0: "gp_f c = 0"
  note D = Disagree_in_trace [OF gp0 i d]
  show "0 < i" by (rule D(1))
  show "feature_branch opts (fst (?tr ! (i - 1))) \<noteq> Disagree" by (rule D(2))
  show "dlt_f (fst (?tr ! i)) = dlt_f (snd (?tr ! (i - 1)))" using D(3) by simp
  from D(1) i have "snd (?tr ! (i - 1)) = rprop_feature opts (fst (?tr ! (i - 1)))"
    by (simp add: feature_trace_step)
  then show "x_f (snd (?tr ! (i - 1))) = x_f (fst (?tr ! (i - 1))) + dlt_f (snd (?tr ! (i - 1)))"
    using applied_delta [OF D(2)] by simp
qed

text \<open>
  In the trace with the gradients \<open>1\<close>, \<open>1\<close>, \<open>- 1\<close>, \<open>- 1\<close> the third update disagrees
  and reads the delta \<open>- 0.12\<close> of the second; the fourth, whose gradient has the sign
  of the third, is neutral.
\<close>

theorem disagree_never_twice_witness:
  "(2 :: nat) < length [1, 1, - 1, - 1 :: real] \<and>
   feature_branch (ex_opt 0 (1 / 1000000)) (fst (ex_trace ! 2)) = Disagree \<and>
   Suc 2 < length [1, 1, - 1, - 1 :: real] \<and>
   gp_f (fst (ex_trace ! Suc 2)) = 0 \<and>
   feature_branch (ex_opt 0 (1 / 1000000)) (fst (ex_trace ! Suc 2)) = Neutral \<and>
   feature_branch (ex_opt 0 (1 / 1000000)) (fst (ex_trace ! 1)) = Agree \<and>
   dlt_f (fst (ex_trace ! 2)) = - 12 / 100 \<and>
   dlt_f (snd (ex_trace ! 1)) = - 12 / 100 \<and>
   x_f (snd (ex_trace ! 1)) = x_f (fst (ex_trace ! 1)) + dlt_f (snd (ex_trace ! 1))"
  using disagree_never_twice [of 2 "[1, 1, - 1, - 1]" "ex_opt 0 (1 / 1000000)"
      "\<lparr>x_f = 0, g_f = 0, gp_f = 0, stp_f = 1 / 10, dlt_f = 0\<rparr>", folded ex_trace_def]
  by (simp add: ex_trace_eval feature_eval)

end
